theory Spec2Isabelle
  imports Main "HOL-Library.Sublist"
begin

section \<open>The Store: the Vehicle table\<close>

text \<open>
  The vehicle controller (\<^verbatim>\<open>controllers/vehicleController.js\<close>) works on the
  Sequelize model \<^verbatim>\<open>Vehicle\<close>. The model's declaration is not among the sources;
  the controller and the specification name the columns \<^verbatim>\<open>id\<close>, \<^verbatim>\<open>userId\<close>,
  \<^verbatim>\<open>type\<close>, \<^verbatim>\<open>image\<close> and the creation timestamp. Every other column is kept,
  uninterpreted, in \<open>v_rest\<close>.
\<close>

record vehicle =
  v_id :: nat
  v_userId :: int
  v_type :: string
  v_image :: string
  v_createdAt :: nat
  v_rest :: "(string \<times> string) list"

text \<open>
  The table holds its rows in storage order; \<open>nextId\<close> is the auto-increment counter.
\<close>

record store =
  rows :: "vehicle list"
  nextId :: nat

text \<open>
  A request payload (\<^verbatim>\<open>data\<close>): every field may be missing, and the payload may
  name the row's \<^verbatim>\<open>id\<close> as any other column. \<open>d_userId\<close> is the payload's
  \<^verbatim>\<open>userId\<close> as JavaScript's \<^verbatim>\<open>Number(data.userId)\<close> reads it: \<open>Some n\<close> for an
  integer, \<open>None\<close> for \<^verbatim>\<open>NaN\<close> (a missing field, a string that is no number) or a
  number that is no integer. \<open>d_rest\<close> holds the payload's values for the other columns
  of the table.
\<close>

record vehicleData =
  d_id :: "nat option"
  d_userId :: "int option"
  d_type :: "string option"
  d_image :: "string option"
  d_rest :: "(string \<times> string) list"

text \<open>
  What a controller call can end with: an exception (the rejected promise), or a returned
  value, which is either a bare status number (\<^verbatim>\<open>return 401\<close>) or data.
\<close>

datatype error = TypeError | StoreError | BlobError

text \<open>
  A JavaScript number as far as it is met here: \<^verbatim>\<open>NaN\<close>, an integer, or an infinity.
\<close>

datatype number = NaN | Num int | PosInf | NegInf

datatype 'a reply = Sentinel nat | Payload 'a

subsection \<open>Sequelize's queries on the table\<close>

text \<open>\<^verbatim>\<open>findOne({where: {id: id}})\<close>: the row or \<^verbatim>\<open>null\<close>.\<close>

definition Vehicle_findOne :: "nat \<Rightarrow> store \<Rightarrow> vehicle option" where
  "Vehicle_findOne i s = find (\<lambda>v. v_id v = i) (rows s)"

text \<open>
  The \<^verbatim>\<open>order\<close> option, \<^verbatim>\<open>"CreatedAt"\<close> with \<^verbatim>\<open>"DESC"\<close>: newest first. Rows with equal timestamps
  keep their storage order (SQL leaves their order open).
\<close>

definition newestFirst :: "vehicle list \<Rightarrow> vehicle list" where
  "newestFirst vs = sort_key (\<lambda>v. - int (v_createdAt v)) vs"

text \<open>
  \<^verbatim>\<open>LIMIT offset, limit\<close>: the database refuses a limit or an offset that is
  negative or no integer (\<^verbatim>\<open>NaN\<close>, \<^verbatim>\<open>Infinity\<close>).
\<close>

definition page :: "number \<Rightarrow> number \<Rightarrow> 'a list \<Rightarrow> error + 'a list" where
  "page limit offset xs =
     (case (limit, offset) of
        (Num l, Num off) \<Rightarrow>
          if l < 0 \<or> off < 0 then Inl StoreError
          else Inr (take (nat l) (drop (nat off) xs))
      | _ \<Rightarrow> Inl StoreError)"

text \<open>
  \<^verbatim>\<open>Vehicle.create(vehicleData)\<close>: a new row with the current time \<open>now\<close> and the
  payload's id, or the next id of the counter when the payload names none. The columns
  \<^verbatim>\<open>userId\<close>, \<^verbatim>\<open>type\<close> and \<^verbatim>\<open>image\<close> must be given, the id must be free, and the
  Store may refuse a row (a closed enumeration, a dangling foreign key): \<open>accepts\<close>
  stands for the constraints of the model and the database, which are not among the
  sources.
\<close>

definition new_row :: "nat \<Rightarrow> vehicleData \<Rightarrow> int \<Rightarrow> string \<Rightarrow> string \<Rightarrow> store \<Rightarrow> vehicle" where
  "new_row now vd u t i s =
     \<lparr>v_id = (case d_id vd of None \<Rightarrow> nextId s | Some j \<Rightarrow> j),
      v_userId = u, v_type = t, v_image = i, v_createdAt = now, v_rest = d_rest vd\<rparr>"

definition Vehicle_create ::
  "(vehicle \<Rightarrow> bool) \<Rightarrow> nat \<Rightarrow> vehicleData \<Rightarrow> store \<Rightarrow> (error + vehicle) \<times> store" where
  "Vehicle_create accepts now vd s =
     (case (d_userId vd, d_type vd, d_image vd) of
        (Some u, Some t, Some i) \<Rightarrow>
          (let row = new_row now vd u t i s
           in if accepts row \<and> v_id row \<notin> v_id ` set (rows s)
              then (Inr row,
                    s\<lparr>rows := rows s @ [row], nextId := max (nextId s) (Suc (v_id row))\<rparr>)
              else (Inl StoreError, s))
      | _ \<Rightarrow> (Inl StoreError, s))"

text \<open>
  \<^verbatim>\<open>Vehicle.update(vehicleData, {where: {id: id}})\<close>: only the fields present in
  the payload change. The result is \<^verbatim>\<open>[affectedCount]\<close>. For a payload that sets no
  column Sequelize sends no statement and answers \<^verbatim>\<open>[0]\<close>; otherwise every row with
  the id is written (with its new update time) and counted. An id the payload sets must
  not be taken by another row.
\<close>

definition sets_no_column :: "vehicleData \<Rightarrow> bool" where
  "sets_no_column vd =
     (d_id vd = None \<and> d_userId vd = None \<and> d_type vd = None \<and> d_image vd = None \<and>
      d_rest vd = [])"

definition merge_fields :: "(string \<times> string) list \<Rightarrow> (string \<times> string) list \<Rightarrow> (string \<times> string) list" where
  "merge_fields new old = new @ filter (\<lambda>(k, _). k \<notin> fst ` set new) old"

definition apply_update :: "vehicleData \<Rightarrow> vehicle \<Rightarrow> vehicle" where
  "apply_update vd v =
     v\<lparr>v_id := (case d_id vd of None \<Rightarrow> v_id v | Some j \<Rightarrow> j),
       v_userId := (case d_userId vd of None \<Rightarrow> v_userId v | Some u \<Rightarrow> u),
       v_type := (case d_type vd of None \<Rightarrow> v_type v | Some t \<Rightarrow> t),
       v_image := (case d_image vd of None \<Rightarrow> v_image v | Some i \<Rightarrow> i),
       v_rest := merge_fields (d_rest vd) (v_rest v)\<rparr>"

definition Vehicle_update ::
  "(vehicle \<Rightarrow> bool) \<Rightarrow> vehicleData \<Rightarrow> nat \<Rightarrow> store \<Rightarrow> (error + nat list) \<times> store" where
  "Vehicle_update accepts vd i s =
     (if sets_no_column vd then (Inr [0], s)
      else
        (let hit = filter (\<lambda>v. v_id v = i) (rows s)
         in if list_all (\<lambda>v. accepts (apply_update vd v)) hit \<and>
               (case d_id vd of
                  None \<Rightarrow> True
                | Some j \<Rightarrow> hit = [] \<or> j = i \<or> j \<notin> v_id ` set (rows s))
            then (Inr [length hit],
                  s\<lparr>rows := map (\<lambda>v. if v_id v = i then apply_update vd v else v) (rows s)\<rparr>)
            else (Inl StoreError, s)))"

text \<open>\<^verbatim>\<open>Vehicle.destroy({where: {id: id}})\<close>: the number of rows removed.\<close>

definition Vehicle_destroy :: "nat \<Rightarrow> store \<Rightarrow> nat \<times> store" where
  "Vehicle_destroy i s =
     (length (filter (\<lambda>v. v_id v = i) (rows s)),
      s\<lparr>rows := filter (\<lambda>v. v_id v \<noteq> i) (rows s)\<rparr>)"

section \<open>The vehicle controller\<close>

text \<open>\<^verbatim>\<open>getVehicles({limit, offset})\<close>: newest first, one page.\<close>

definition getVehicles :: "number \<Rightarrow> number \<Rightarrow> store \<Rightarrow> error + vehicle list" where
  "getVehicles limit offset s = page limit offset (newestFirst (rows s))"

definition getVehicle :: "nat \<Rightarrow> store \<Rightarrow> vehicle option" where
  "getVehicle i s = Vehicle_findOne i s"

text \<open>
  \<^verbatim>\<open>getVehiclesByUser(id)\<close> and \<^verbatim>\<open>getVehiclesByType(type)\<close>: a
  \<^verbatim>\<open>findAll\<close> with a \<^verbatim>\<open>where\<close> clause only; the call has no \<^verbatim>\<open>order\<close>,
  \<^verbatim>\<open>limit\<close> or \<^verbatim>\<open>offset\<close>, so the rows come in storage order.
\<close>

definition getVehiclesByUser :: "int \<Rightarrow> store \<Rightarrow> vehicle list" where
  "getVehiclesByUser u s = filter (\<lambda>v. v_userId v = u) (rows s)"

definition getVehiclesByType :: "string \<Rightarrow> store \<Rightarrow> vehicle list" where
  "getVehiclesByType t s = filter (\<lambda>v. v_type v = t) (rows s)"

text \<open>
  \<^verbatim>\<open>if (image)\<close>: a missing image and the empty string are both falsy.
\<close>

definition truthy_image :: "string option \<Rightarrow> bool" where
  "truthy_image img = (case img of None \<Rightarrow> False | Some i \<Rightarrow> i \<noteq> [])"

text \<open>
  \<^verbatim>\<open>createVehicle(data, tokenUserId)\<close>. \<open>tokenUserId\<close> is the caller's id, the number
  the token check put in \<^verbatim>\<open>req.userId\<close>. \<open>saveImage\<close> is the upload manager
  (\<^verbatim>\<open>utils/uploadManager\<close>, not among the sources): it stores the payload and gives
  the reference name, or throws.
\<close>

definition createVehicle ::
  "(string \<Rightarrow> string \<Rightarrow> error + string) \<Rightarrow> (vehicle \<Rightarrow> bool) \<Rightarrow> nat \<Rightarrow>
   vehicleData \<Rightarrow> int \<Rightarrow> store \<Rightarrow> (error + vehicle reply) \<times> store" where
  "createVehicle saveImage accepts now data tokenUserId s =
     (if d_userId data \<noteq> Some tokenUserId then (Inr (Sentinel 401), s)
      else
        (case (if truthy_image (d_image data)
               then saveImage (the (d_image data)) ''vehicle''
               else Inr ''default.png'') of
           Inl e \<Rightarrow> (Inl e, s)
         | Inr ref \<Rightarrow>
             (case Vehicle_create accepts now (data\<lparr>d_image := Some ref\<rparr>) s of
                (Inl e, s') \<Rightarrow> (Inl e, s')
              | (Inr vehicle, s') \<Rightarrow> (Inr (Payload vehicle), s'))))"

text \<open>
  \<^verbatim>\<open>updateVehicle(id, data, tokenUserId)\<close>. When no row has the id,
  \<^verbatim>\<open>findOne\<close> gives \<^verbatim>\<open>null\<close> and reading \<^verbatim>\<open>vehicleOwnerData.userId\<close> throws
  a TypeError. The payload's image is replaced by its stored reference, or left out.
\<close>

definition updateVehicle ::
  "(string \<Rightarrow> string \<Rightarrow> error + string) \<Rightarrow> (vehicle \<Rightarrow> bool) \<Rightarrow>
   nat \<Rightarrow> vehicleData \<Rightarrow> int \<Rightarrow> store \<Rightarrow> (error + nat list reply) \<times> store" where
  "updateVehicle saveImage accepts i data tokenUserId s =
     (case Vehicle_findOne i s of
        None \<Rightarrow> (Inl TypeError, s)
      | Some vehicleOwnerData \<Rightarrow>
          if v_userId vehicleOwnerData \<noteq> tokenUserId then (Inr (Sentinel 401), s)
          else
            (case (if truthy_image (d_image data)
                   then map_sum (\<lambda>e. e) Some (saveImage (the (d_image data)) ''vehicle'')
                   else Inr None) of
               Inl e \<Rightarrow> (Inl e, s)
             | Inr img \<Rightarrow>
                 (case Vehicle_update accepts (data\<lparr>d_image := img\<rparr>) i s of
                    (Inl e, s') \<Rightarrow> (Inl e, s')
                  | (Inr vehicle, s') \<Rightarrow> (Inr (Payload vehicle), s'))))"

text \<open>\<^verbatim>\<open>deleteVehicle(id, tokenUserId)\<close>, with the same unguarded read of the row.\<close>

definition deleteVehicle :: "nat \<Rightarrow> int \<Rightarrow> store \<Rightarrow> (error + nat reply) \<times> store" where
  "deleteVehicle i tokenUserId s =
     (case Vehicle_findOne i s of
        None \<Rightarrow> (Inl TypeError, s)
      | Some vehicleData \<Rightarrow>
          if v_userId vehicleData \<noteq> tokenUserId then (Inr (Sentinel 401), s)
          else (case Vehicle_destroy i s of (n, s') \<Rightarrow> (Inr (Payload n), s')))"

section \<open>Requests, responses and the Express router\<close>

text \<open>
  JavaScript values as far as the routes look at them: what a controller resolves to,
  a request body, a response body. \<open>JNull\<close> also stands for \<^verbatim>\<open>undefined\<close>. An
  object is its list of entries.
\<close>

datatype json =
    JNull
  | JBool bool
  | JNum int
  | JStr string
  | JArr "json list"
  | JObj "(string \<times> json) list"

text \<open>\<^verbatim>\<open>!data\<close> is true for exactly the falsy values.\<close>

fun truthy :: "json \<Rightarrow> bool" where
  "truthy JNull = False"
| "truthy (JBool b) = b"
| "truthy (JNum n) = (n \<noteq> 0)"
| "truthy (JStr s) = (s \<noteq> [])"
| "truthy (JArr _) = True"
| "truthy (JObj _) = True"

datatype http_method = GET | POST | PUT | DELETE

text \<open>
  A request as a router sees it: the path below the router's mount point
  (\<^verbatim>\<open>app.use("/api/images", ...)\<close> in \<^verbatim>\<open>index.js\<close>), split at the slashes into its
  segments, none of them empty; \<open>r_params\<close> are bound by the route that matched,
  \<open>r_userId\<close> is \<^verbatim>\<open>req.userId\<close>, \<open>r_errors\<close> is what \<^verbatim>\<open>validationResult(req)\<close>
  reads.
\<close>

record request =
  r_method :: http_method
  r_path :: "string list"
  r_query :: "(string \<times> string) list"
  r_headers :: "(string \<times> string) list"
  r_body :: json
  r_params :: "(string \<times> string) list"
  r_userId :: "int option"
  r_errors :: "json list"

datatype response =
    Send json
  | SendStatus nat
  | StatusJson nat json

text \<open>
  A middleware hands the request on (\<^verbatim>\<open>next()\<close>), fails (\<^verbatim>\<open>next(err)\<close>) or
  answers by itself. (A middleware that skips the rest of its route,
  \<^verbatim>\<open>next("route")\<close>, is not modelled: a validation chain of express-validator
  always hands on, and the token check hands on or answers.)
\<close>

datatype mw = Next request | NextErr error | Respond response

text \<open>
  The controllers of events, images and comments are not among the sources. A call of
  one is recorded with its arguments; what it resolves to is given by a function of the
  call, which the routes take as a parameter (\<open>Inl\<close>: the promise is rejected).
\<close>

datatype call =
    event_getEvents number number
  | event_getEvent json
  | event_getEventIncludeAll json
  | event_getEventsByVehicle json
  | event_getEventsByType json
  | event_createEvent json "int option"
  | event_updateEvent json json "int option"
  | event_deleteEvent json "int option"
  | image_getImages
  | image_getImage json
  | image_getImagesByEvent json
  | image_createImage json
  | image_deleteImage json
  | comment_getComments
  | comment_getComment json
  | comment_getCommentsByEvent json
  | comment_getCommentsByUser json
  | comment_createComment json "int option"
  | comment_updateComment json json "int option"
  | comment_deleteComment json "int option"

type_synonym controller = "call \<Rightarrow> error + json"

text \<open>
  How a route ends: with a response, with an error given to \<^verbatim>\<open>next\<close> (Express's
  error handler answers 500), or by passing on to the routes registered after it.
\<close>

datatype outcome = Responded response | Failed error | Pass

type_synonym handler = "request \<Rightarrow> controller \<Rightarrow> outcome \<times> call list"

text \<open>
  The middlewares the routers import from files that are not among the sources
  (\<^verbatim>\<open>auth/authMiddleware\<close>, \<^verbatim>\<open>validators\<close>).
\<close>

record deps =
  verifyToken :: "request \<Rightarrow> mw"
  idParamValidator :: "request \<Rightarrow> mw"
  eventValidator :: "request \<Rightarrow> mw"
  updateEventValidator :: "request \<Rightarrow> mw"
  eventTypeParamValidator :: "request \<Rightarrow> mw"
  imageValidator :: "request \<Rightarrow> mw"
  commentValidator :: "request \<Rightarrow> mw"
  updateCommentValidator :: "request \<Rightarrow> mw"

subsection \<open>Route matching and dispatch\<close>

datatype seg = Lit string | Param string

record route =
  rt_method :: http_method
  rt_pattern :: "seg list"
  rt_chain :: "(request \<Rightarrow> mw) list"
  rt_handler :: handler

text \<open>
  Express compares the literal parts of a path without regard to case; a parameter takes
  one whole segment.
\<close>

definition lower :: "char \<Rightarrow> char" where
  "lower c = (let n = (of_char c :: nat) in if 65 \<le> n \<and> n \<le> 90 then char_of (n + 32) else c)"

fun match_path :: "seg list \<Rightarrow> string list \<Rightarrow> (string \<times> string) list option" where
  "match_path [] [] = Some []"
| "match_path (Lit l # ps) (x # xs) =
     (if map lower l = map lower x then match_path ps xs else None)"
| "match_path (Param k # ps) (x # xs) =
     (case match_path ps xs of None \<Rightarrow> None | Some bs \<Rightarrow> Some ((k, x) # bs))"
| "match_path _ _ = None"

definition match_route :: "route \<Rightarrow> request \<Rightarrow> (string \<times> string) list option" where
  "match_route r req =
     (if rt_method r = r_method req then match_path (rt_pattern r) (r_path req) else None)"

text \<open>The handlers of one route run in the order they were given.\<close>

fun run_chain :: "(request \<Rightarrow> mw) list \<Rightarrow> handler \<Rightarrow> handler" where
  "run_chain [] h req ctl = h req ctl"
| "run_chain (m # ms) h req ctl =
     (case m req of
        Next req' \<Rightarrow> run_chain ms h req' ctl
      | NextErr e \<Rightarrow> (Failed e, [])
      | Respond r \<Rightarrow> (Responded r, []))"

text \<open>
  The router tries its routes in the order of registration. A later route is reached only
  when every matching route before it has passed on.
\<close>

fun dispatch :: "route list \<Rightarrow> controller \<Rightarrow> request \<Rightarrow> outcome \<times> call list" where
  "dispatch [] ctl req = (Pass, [])"
| "dispatch (r # rs) ctl req =
     (case match_route r req of
        None \<Rightarrow> dispatch rs ctl req
      | Some ps \<Rightarrow>
          (case run_chain (rt_chain r) (rt_handler r) (req\<lparr>r_params := ps\<rparr>) ctl of
             (Pass, tr) \<Rightarrow> (case dispatch rs ctl req of (out, tr') \<Rightarrow> (out, tr @ tr'))
           | (out, tr) \<Rightarrow> (out, tr)))"

subsection \<open>What the handlers share\<close>

text \<open>
  \<^verbatim>\<open>req.params.id\<close>, \<^verbatim>\<open>req.query.limit\<close>: the value or \<^verbatim>\<open>undefined\<close>. A query
  value is a string here (a repeated or bracketed key, which Express reads as an array
  or an object, is left out).
\<close>

definition param :: "request \<Rightarrow> string \<Rightarrow> json" where
  "param req k = (case map_of (r_params req) k of None \<Rightarrow> JNull | Some v \<Rightarrow> JStr v)"

definition query :: "request \<Rightarrow> string \<Rightarrow> string option" where
  "query req k = map_of (r_query req) k"

text \<open>\<^verbatim>\<open>{result: 200, data: data}\<close>\<close>

definition envelope :: "json \<Rightarrow> json" where
  "envelope data = JObj [(''result'', JNum 200), (''data'', data)]"

text \<open>
  \<^verbatim>\<open>if (!data) res.sendStatus(404); else res.send({result: 200, data: data});\<close>
\<close>

definition found_or_404 :: "json \<Rightarrow> response" where
  "found_or_404 data = (if \<not> truthy data then SendStatus 404 else Send (envelope data))"

text \<open>
  \<^verbatim>\<open>switch (data) { case 404: ...; case 401: ...; default: ... }\<close>
\<close>

definition unauthorized_body :: json where
  "unauthorized_body = JObj [(''errors'', JArr [JObj [(''msg'', JStr ''Unauthorized'')]])]"

definition by_sentinel :: "json \<Rightarrow> response" where
  "by_sentinel data =
     (if data = JNum 404 then SendStatus 404
      else if data = JNum 401 then StatusJson 401 unauthorized_body
      else Send (envelope data))"

text \<open>
  \<^verbatim>\<open>try { const data = await controller.f(...); ... } catch (err) { next(err); }\<close>
\<close>

definition invoke :: "controller \<Rightarrow> call \<Rightarrow> (json \<Rightarrow> outcome) \<Rightarrow> outcome \<times> call list" where
  "invoke ctl c k = (case ctl c of Inl e \<Rightarrow> (Failed e, [c]) | Inr data \<Rightarrow> (k data, [c]))"

text \<open>
  \<^verbatim>\<open>if (errors.isEmpty()) { ... } else res.status(422).json({errors: errors.array()});\<close>
\<close>

definition validated :: "request \<Rightarrow> outcome \<times> call list \<Rightarrow> outcome \<times> call list" where
  "validated req k =
     (if r_errors req = [] then k
      else (Responded (StatusJson 422 (JObj [(''errors'', JArr (r_errors req))])), []))"

subsection \<open>\<^verbatim>\<open>parseInt(string, 10)\<close>\<close>

text \<open>
  The white space \<^verbatim>\<open>parseInt\<close> skips at the start of its input: the code points
  of ECMAScript's \<^verbatim>\<open>WhiteSpace\<close> and \<^verbatim>\<open>LineTerminator\<close>, each as its UTF-8 bytes.
\<close>

definition white_space :: "string list" where
  "white_space =
     [ [CHR 0x09], [CHR 0x0A], [CHR 0x0B], [CHR 0x0C], [CHR 0x0D], [CHR 0x20],
      [CHR 0xC2, CHR 0xA0],
      [CHR 0xE1, CHR 0x9A, CHR 0x80],
      [CHR 0xE2, CHR 0x80, CHR 0x80], [CHR 0xE2, CHR 0x80, CHR 0x81],
      [CHR 0xE2, CHR 0x80, CHR 0x82], [CHR 0xE2, CHR 0x80, CHR 0x83],
      [CHR 0xE2, CHR 0x80, CHR 0x84], [CHR 0xE2, CHR 0x80, CHR 0x85],
      [CHR 0xE2, CHR 0x80, CHR 0x86], [CHR 0xE2, CHR 0x80, CHR 0x87],
      [CHR 0xE2, CHR 0x80, CHR 0x88], [CHR 0xE2, CHR 0x80, CHR 0x89],
      [CHR 0xE2, CHR 0x80, CHR 0x8A],
      [CHR 0xE2, CHR 0x80, CHR 0xA8], [CHR 0xE2, CHR 0x80, CHR 0xA9],
      [CHR 0xE2, CHR 0x80, CHR 0xAF],
      [CHR 0xE2, CHR 0x81, CHR 0x9F],
      [CHR 0xE3, CHR 0x80, CHR 0x80],
      [CHR 0xEF, CHR 0xBB, CHR 0xBF] ]"

definition ws_prefix :: "string \<Rightarrow> string option" where
  "ws_prefix s = find (\<lambda>w. w \<noteq> [] \<and> take (length w) s = w) white_space"

function trimStart :: "string \<Rightarrow> string" where
  "trimStart s = (case ws_prefix s of None \<Rightarrow> s | Some w \<Rightarrow> trimStart (drop (length w) s))"
  by pat_completeness auto
termination
proof (relation "measure length")
  show "wf (measure length)" by simp
next
  fix s w :: string
  assume "ws_prefix s = Some w"
  then have "w \<noteq> []" and "take (length w) s = w"
    by (auto simp: ws_prefix_def find_Some_iff)
  then have "s \<noteq> []" by auto
  with \<open>w \<noteq> []\<close> show "(drop (length w) s, s) \<in> measure length" by simp
qed

declare trimStart.simps [simp del]

definition is_digit :: "char \<Rightarrow> bool" where
  "is_digit c = (48 \<le> (of_char c :: nat) \<and> (of_char c :: nat) \<le> 57)"

definition digits_value :: "string \<Rightarrow> nat" where
  "digits_value Z = foldl (\<lambda>a c. 10 * a + (of_char c - 48)) 0 Z"

text \<open>
  A JavaScript number is a double: an integer below \<open>2\<^sup>5\<^sup>3\<close> is held exactly, a larger
  one is rounded to 53 significant bits, to the nearest such value and to the even one of
  two equally near; from \<open>2\<^sup>1\<^sup>0\<^sup>2\<^sup>4\<close> on the result is \<^verbatim>\<open>Infinity\<close> (\<open>None\<close> here).
  \<open>drop_bits n\<close> is the number of low bits of \<open>n\<close> that do not fit.
\<close>

function drop_bits :: "nat \<Rightarrow> nat" where
  "drop_bits n = (if n < 2 ^ 53 then 0 else Suc (drop_bits (n div 2)))"
  by pat_completeness auto
termination
  by (relation "measure (\<lambda>n. n)") auto

declare drop_bits.simps [simp del]

definition nearest_double :: "nat \<Rightarrow> nat option" where
  "nearest_double n =
     (let e = drop_bits n;
          q = n div 2 ^ e;
          r = n mod 2 ^ e;
          m = (if 2 ^ e < 2 * r \<or> (2 * r = 2 ^ e \<and> odd q) then q + 1 else q) * 2 ^ e
      in if 2 ^ 1024 \<le> m then None else Some m)"

definition signed :: "bool \<Rightarrow> nat option \<Rightarrow> number" where
  "signed negative m =
     (case m of
        None \<Rightarrow> if negative then NegInf else PosInf
      | Some k \<Rightarrow> Num (if negative then - int k else int k))"

text \<open>
  \<^verbatim>\<open>parseInt(input, 10)\<close>: the input is made a string (\<^verbatim>\<open>undefined\<close> becomes
  \<^verbatim>\<open>"undefined"\<close>), leading white space and one sign are dropped, and the longest
  run of decimal digits is read; without a digit the result is \<^verbatim>\<open>NaN\<close>. The value is
  the double nearest to the integer read (as V8 computes it; ECMAScript lets an
  implementation approximate after the 20th significant digit).
\<close>

definition parseInt :: "string option \<Rightarrow> number" where
  "parseInt input =
     (let S = trimStart (case input of None \<Rightarrow> ''undefined'' | Some str \<Rightarrow> str);
          negative = (take 1 S = ''-'');
          S' = (if take 1 S = ''+'' \<or> take 1 S = ''-'' then drop 1 S else S);
          Z = takeWhile is_digit S'
      in if Z = [] then NaN else signed negative (nearest_double (digits_value Z)))"

text \<open>
  \<^verbatim>\<open>n || d\<close> for a number \<open>n\<close>: \<^verbatim>\<open>NaN\<close> and zero are falsy, every other number,
  an infinity too, is kept.
\<close>

definition or_default :: "number \<Rightarrow> int \<Rightarrow> number" where
  "or_default n d = (if n = NaN \<or> n = Num 0 then Num d else n)"

section \<open>The image router (\<^verbatim>\<open>routes/imageRoutes.js\<close>)\<close>

text \<open>\<^verbatim>\<open>router.get("/")\<close>: the data is sent as it is.\<close>

definition images_get_all :: handler where
  "images_get_all req ctl = invoke ctl image_getImages (\<lambda>data. Responded (Send data))"

text \<open>The first \<^verbatim>\<open>router.get("/:id", idParamValidator, ...)\<close>.\<close>

definition images_get_id :: handler where
  "images_get_id req ctl =
     validated req
       (invoke ctl (image_getImage (param req ''id'')) (\<lambda>data. Responded (found_or_404 data)))"

text \<open>
  The second \<^verbatim>\<open>router.get("/:id", idParamValidator, ...)\<close>, documented as
  \<^verbatim>\<open>/api/images/event/{id}\<close>.
\<close>

definition images_get_by_event :: handler where
  "images_get_by_event req ctl =
     validated req
       (invoke ctl (image_getImagesByEvent (param req ''id''))
          (\<lambda>data. Responded (found_or_404 data)))"

text \<open>\<^verbatim>\<open>router.post("/", imageValidator, ...)\<close>\<close>

definition images_post :: handler where
  "images_post req ctl =
     validated req
       (invoke ctl (image_createImage (r_body req)) (\<lambda>data. Responded (found_or_404 data)))"

text \<open>\<^verbatim>\<open>router.delete("/:id", idParamValidator, ...)\<close>\<close>

definition images_delete :: handler where
  "images_delete req ctl =
     validated req
       (invoke ctl (image_deleteImage (param req ''id''))
          (\<lambda>data. Responded (found_or_404 data)))"

definition imageRoutes :: "deps \<Rightarrow> route list" where
  "imageRoutes d =
     [\<lparr>rt_method = GET, rt_pattern = [], rt_chain = [], rt_handler = images_get_all\<rparr>,
      \<lparr>rt_method = GET, rt_pattern = [Param ''id''], rt_chain = [idParamValidator d],
       rt_handler = images_get_id\<rparr>,
      \<lparr>rt_method = GET, rt_pattern = [Param ''id''], rt_chain = [idParamValidator d],
       rt_handler = images_get_by_event\<rparr>,
      \<lparr>rt_method = POST, rt_pattern = [], rt_chain = [imageValidator d],
       rt_handler = images_post\<rparr>,
      \<lparr>rt_method = DELETE, rt_pattern = [Param ''id''], rt_chain = [idParamValidator d],
       rt_handler = images_delete\<rparr>]"

section \<open>The event router (\<^verbatim>\<open>routes/eventRoutes.js\<close>)\<close>

text \<open>
  \<^verbatim>\<open>router.get("/")\<close>: the limit and the offset of the query string, with their
  defaults.
\<close>

definition query_limit :: "request \<Rightarrow> number" where
  "query_limit req = or_default (parseInt (query req ''limit'')) 10"

definition query_offset :: "request \<Rightarrow> number" where
  "query_offset req = or_default (parseInt (query req ''offset'')) 0"

definition events_get_all :: handler where
  "events_get_all req ctl =
     invoke ctl (event_getEvents (query_limit req) (query_offset req))
       (\<lambda>data. Responded (Send (envelope data)))"

definition events_get_id :: handler where
  "events_get_id req ctl =
     validated req
       (invoke ctl (event_getEvent (param req ''id'')) (\<lambda>data. Responded (found_or_404 data)))"

text \<open>
  \<^verbatim>\<open>router.get("/:id/include")\<close>. \<^verbatim>\<open>delete o.k\<close> removes the entry \<open>k\<close> of an
  object and does nothing to another value.
\<close>

definition delete_key :: "string \<Rightarrow> json \<Rightarrow> json" where
  "delete_key k j = (case j of JObj kvs \<Rightarrow> JObj (filter (\<lambda>(k', _). k' \<noteq> k) kvs) | _ \<Rightarrow> j)"

text \<open>
  \<^verbatim>\<open>if (filteredData.User) { delete filteredData.User.password;
  delete filteredData.User.email; }\<close>
\<close>

definition strip_user :: "json \<Rightarrow> json" where
  "strip_user filteredData =
     (case filteredData of
        JObj kvs \<Rightarrow>
          JObj (map (\<lambda>(k, v). if k = ''User'' \<and> truthy v
                               then (k, delete_key ''email'' (delete_key ''password'' v))
                               else (k, v)) kvs)
      | _ \<Rightarrow> filteredData)"

text \<open>
  \<^verbatim>\<open>data.toJSON()\<close>: the plain object of a model instance; a truthy value that is
  no object has no such method, and the call throws.
\<close>

definition include_reply :: "json \<Rightarrow> outcome" where
  "include_reply data =
     (if \<not> truthy data then Responded (SendStatus 404)
      else (case data of
              JObj _ \<Rightarrow> Responded (Send (envelope (strip_user data)))
            | _ \<Rightarrow> Failed TypeError))"

definition events_get_include :: handler where
  "events_get_include req ctl =
     validated req (invoke ctl (event_getEventIncludeAll (param req ''id'')) include_reply)"

definition events_get_by_vehicle :: handler where
  "events_get_by_vehicle req ctl =
     validated req
       (invoke ctl (event_getEventsByVehicle (param req ''id''))
          (\<lambda>data. Responded (found_or_404 data)))"

definition events_get_by_type :: handler where
  "events_get_by_type req ctl =
     validated req
       (invoke ctl (event_getEventsByType (param req ''type''))
          (\<lambda>data. Responded (found_or_404 data)))"

definition events_post :: handler where
  "events_post req ctl =
     validated req
       (invoke ctl (event_createEvent (r_body req) (r_userId req))
          (\<lambda>data. Responded (by_sentinel data)))"

definition events_put :: handler where
  "events_put req ctl =
     validated req
       (invoke ctl (event_updateEvent (param req ''id'') (r_body req) (r_userId req))
          (\<lambda>data. Responded (by_sentinel data)))"

definition events_delete :: handler where
  "events_delete req ctl =
     validated req
       (invoke ctl (event_deleteEvent (param req ''id'') (r_userId req))
          (\<lambda>data. Responded (by_sentinel data)))"

definition eventRoutes :: "deps \<Rightarrow> route list" where
  "eventRoutes d =
     [\<lparr>rt_method = GET, rt_pattern = [], rt_chain = [], rt_handler = events_get_all\<rparr>,
      \<lparr>rt_method = GET, rt_pattern = [Param ''id''], rt_chain = [idParamValidator d],
       rt_handler = events_get_id\<rparr>,
      \<lparr>rt_method = GET, rt_pattern = [Param ''id'', Lit ''include''],
       rt_chain = [idParamValidator d], rt_handler = events_get_include\<rparr>,
      \<lparr>rt_method = GET, rt_pattern = [Lit ''vehicle'', Param ''id''],
       rt_chain = [idParamValidator d], rt_handler = events_get_by_vehicle\<rparr>,
      \<lparr>rt_method = GET, rt_pattern = [Lit ''type'', Param ''type''],
       rt_chain = [eventTypeParamValidator d], rt_handler = events_get_by_type\<rparr>,
      \<lparr>rt_method = POST, rt_pattern = [],
       rt_chain = [verifyToken d, eventValidator d], rt_handler = events_post\<rparr>,
      \<lparr>rt_method = PUT, rt_pattern = [Param ''id''],
       rt_chain = [verifyToken d, updateEventValidator d], rt_handler = events_put\<rparr>,
      \<lparr>rt_method = DELETE, rt_pattern = [Param ''id''],
       rt_chain = [verifyToken d, idParamValidator d], rt_handler = events_delete\<rparr>]"

section \<open>The comment router (\<^verbatim>\<open>routes/commentRoutes.js\<close>)\<close>

definition comments_get_all :: handler where
  "comments_get_all req ctl =
     invoke ctl comment_getComments (\<lambda>data. Responded (Send (envelope data)))"

definition comments_get_id :: handler where
  "comments_get_id req ctl =
     validated req
       (invoke ctl (comment_getComment (param req ''id''))
          (\<lambda>data. Responded (found_or_404 data)))"

definition comments_get_by_event :: handler where
  "comments_get_by_event req ctl =
     validated req
       (invoke ctl (comment_getCommentsByEvent (param req ''id''))
          (\<lambda>data. Responded (found_or_404 data)))"

definition comments_get_by_user :: handler where
  "comments_get_by_user req ctl =
     validated req
       (invoke ctl (comment_getCommentsByUser (param req ''id''))
          (\<lambda>data. Responded (found_or_404 data)))"

definition comments_post :: handler where
  "comments_post req ctl =
     validated req
       (invoke ctl (comment_createComment (r_body req) (r_userId req))
          (\<lambda>data. Responded (by_sentinel data)))"

definition comments_put :: handler where
  "comments_put req ctl =
     validated req
       (invoke ctl (comment_updateComment (param req ''id'') (r_body req) (r_userId req))
          (\<lambda>data. Responded (by_sentinel data)))"

definition comments_delete :: handler where
  "comments_delete req ctl =
     validated req
       (invoke ctl (comment_deleteComment (param req ''id'') (r_userId req))
          (\<lambda>data. Responded (by_sentinel data)))"

definition commentRoutes :: "deps \<Rightarrow> route list" where
  "commentRoutes d =
     [\<lparr>rt_method = GET, rt_pattern = [], rt_chain = [], rt_handler = comments_get_all\<rparr>,
      \<lparr>rt_method = GET, rt_pattern = [Param ''id''], rt_chain = [idParamValidator d],
       rt_handler = comments_get_id\<rparr>,
      \<lparr>rt_method = GET, rt_pattern = [Lit ''event'', Param ''id''],
       rt_chain = [idParamValidator d], rt_handler = comments_get_by_event\<rparr>,
      \<lparr>rt_method = GET, rt_pattern = [Lit ''user'', Param ''id''],
       rt_chain = [idParamValidator d], rt_handler = comments_get_by_user\<rparr>,
      \<lparr>rt_method = POST, rt_pattern = [],
       rt_chain = [verifyToken d, commentValidator d], rt_handler = comments_post\<rparr>,
      \<lparr>rt_method = PUT, rt_pattern = [Param ''id''],
       rt_chain = [verifyToken d, updateCommentValidator d], rt_handler = comments_put\<rparr>,
      \<lparr>rt_method = DELETE, rt_pattern = [Param ''id''],
       rt_chain = [verifyToken d, idParamValidator d], rt_handler = comments_delete\<rparr>]"

section \<open>The event controller\<close>

text \<open>
  Modelled from the spec: \<^verbatim>\<open>controllers/eventController.js\<close> and the associations
  of \<^verbatim>\<open>models/index.js\<close> are not among the sources. The columns of an Event are
  those of \<^verbatim>\<open>models/event.js\<close> (\<^verbatim>\<open>id\<close>, \<^verbatim>\<open>vehicleid\<close>, \<^verbatim>\<open>title\<close>,
  \<^verbatim>\<open>detail\<close>, \<^verbatim>\<open>type\<close>, \<^verbatim>\<open>date\<close>, \<^verbatim>\<open>published\<close>) and the owner
  \<^verbatim>\<open>userId\<close>, which the specification gives every Event (``the Event's own
  \<^verbatim>\<open>userId\<close> field carried at creation'') and the request body of
  \<^verbatim>\<open>POST /api/events\<close> requires.
\<close>

datatype eventType = repair | modification | story | maintenance

record event =
  e_id :: nat
  e_userId :: int
  e_vehicleid :: nat
  e_title :: string
  e_detail :: "string option"
  e_type :: eventType
  e_date :: string
  e_published :: bool

record eventData =
  ed_userId :: "int option"
  ed_vehicleid :: "nat option"
  ed_title :: "string option"
  ed_detail :: "string option"
  ed_type :: "eventType option"
  ed_date :: "string option"
  ed_published :: "bool option"

text \<open>The Store with the tables of vehicles and events.\<close>

record db =
  vehicles :: "vehicle list"
  events :: "event list"
  nextEventId :: nat

definition Event_findOne :: "nat \<Rightarrow> db \<Rightarrow> event option" where
  "Event_findOne i s = find (\<lambda>e. e_id e = i) (events s)"

definition vehicle_exists :: "nat \<Rightarrow> db \<Rightarrow> bool" where
  "vehicle_exists i s = list_ex (\<lambda>v. v_id v = i) (vehicles s)"

text \<open>
  Modelled from the spec: \<open>create(payload, callerId)\<close> ``validates that
  \<open>payload.userId == callerId\<close> before persisting''; ``every foreign key must reference
  an existing row; dangling references are rejected at creation'' by the Store.
\<close>

definition createEvent :: "eventData \<Rightarrow> int \<Rightarrow> db \<Rightarrow> (error + event reply) \<times> db" where
  "createEvent data callerId s =
     (if ed_userId data \<noteq> Some callerId then (Inr (Sentinel 401), s)
      else
        (case (ed_vehicleid data, ed_title data, ed_type data, ed_date data) of
           (Some v, Some t, Some ty, Some dt) \<Rightarrow>
             if vehicle_exists v s
             then (let row = \<lparr>e_id = nextEventId s, e_userId = callerId, e_vehicleid = v,
                               e_title = t, e_detail = ed_detail data, e_type = ty, e_date = dt,
                               e_published = (case ed_published data of None \<Rightarrow> False | Some b \<Rightarrow> b)\<rparr>
                   in (Inr (Payload row),
                       s\<lparr>events := events s @ [row], nextEventId := Suc (nextEventId s)\<rparr>))
             else (Inl StoreError, s)
         | _ \<Rightarrow> (Inl StoreError, s)))"

definition apply_event_update :: "eventData \<Rightarrow> event \<Rightarrow> event" where
  "apply_event_update d e =
     e\<lparr>e_userId := (case ed_userId d of None \<Rightarrow> e_userId e | Some u \<Rightarrow> u),
       e_vehicleid := (case ed_vehicleid d of None \<Rightarrow> e_vehicleid e | Some v \<Rightarrow> v),
       e_title := (case ed_title d of None \<Rightarrow> e_title e | Some t \<Rightarrow> t),
       e_detail := (case ed_detail d of None \<Rightarrow> e_detail e | Some x \<Rightarrow> Some x),
       e_type := (case ed_type d of None \<Rightarrow> e_type e | Some ty \<Rightarrow> ty),
       e_date := (case ed_date d of None \<Rightarrow> e_date e | Some dt \<Rightarrow> dt),
       e_published := (case ed_published d of None \<Rightarrow> e_published e | Some b \<Rightarrow> b)\<rparr>"

text \<open>
  Modelled from the spec: \<open>update(id, payload, callerId)\<close> ``loads the existing row
  first; if absent, NotFound; else compares the existing row's owner field against
  \<open>callerId\<close> (not the payload's)''; ``only fields present in \<open>payload\<close> are changed''.
\<close>

definition updateEvent :: "nat \<Rightarrow> eventData \<Rightarrow> int \<Rightarrow> db \<Rightarrow> (error + nat list reply) \<times> db" where
  "updateEvent i data callerId s =
     (case Event_findOne i s of
        None \<Rightarrow> (Inr (Sentinel 404), s)
      | Some row \<Rightarrow>
          if e_userId row \<noteq> callerId then (Inr (Sentinel 401), s)
          else if (case ed_vehicleid data of None \<Rightarrow> True | Some v \<Rightarrow> vehicle_exists v s)
          then (Inr (Payload [length (filter (\<lambda>e. e_id e = i) (events s))]),
                s\<lparr>events := map (\<lambda>e. if e_id e = i then apply_event_update data e else e)
                                 (events s)\<rparr>)
          else (Inl StoreError, s))"

text \<open>
  Modelled from the spec: \<open>delete(id, callerId)\<close> has the ``same ownership check pattern
  as update'' and gives the number of rows removed.
\<close>

definition deleteEvent :: "nat \<Rightarrow> int \<Rightarrow> db \<Rightarrow> (error + nat reply) \<times> db" where
  "deleteEvent i callerId s =
     (case Event_findOne i s of
        None \<Rightarrow> (Inr (Sentinel 404), s)
      | Some row \<Rightarrow>
          if e_userId row \<noteq> callerId then (Inr (Sentinel 401), s)
          else (Inr (Payload (length (filter (\<lambda>e. e_id e = i) (events s)))),
                s\<lparr>events := filter (\<lambda>e. e_id e \<noteq> i) (events s)\<rparr>))"

section \<open>Sample data\<close>

definition car :: "nat \<Rightarrow> int \<Rightarrow> string \<Rightarrow> nat \<Rightarrow> vehicle" where
  "car i u t c =
     \<lparr>v_id = i, v_userId = u, v_type = t, v_image = ''default.png'', v_createdAt = c, v_rest = []\<rparr>"

definition garage :: store where
  "garage = \<lparr>rows = [car 1 1 ''suv'' 10, car 2 2 ''sedan'' 20], nextId = 3\<rparr>"

definition six_suvs :: store where
  "six_suvs =
     \<lparr>rows = [car 1 1 ''suv'' 10, car 2 1 ''suv'' 20, car 3 1 ''suv'' 30,
              car 4 2 ''suv'' 40, car 5 2 ''suv'' 50, car 6 2 ''suv'' 60],
      nextId = 7\<rparr>"

definition payload :: "int \<Rightarrow> string option \<Rightarrow> vehicleData" where
  "payload u img =
     \<lparr>d_id = None, d_userId = Some u, d_type = Some ''suv'', d_image = img, d_rest = []\<rparr>"

definition blob :: "string \<Rightarrow> string \<Rightarrow> error + string" where
  "blob img kind = Inr (kind @ ''-1.png'')"

definition fleet :: "nat \<Rightarrow> string \<Rightarrow> store" where
  "fleet n t = \<lparr>rows = map (\<lambda>i. car i 1 t i) [0..<n], nextId = n\<rparr>"

section \<open>Notions the properties are stated with\<close>

text \<open>
  The route that takes a request, and the request as that route's handlers get it (with
  the parameters of the path bound).
\<close>

fun routed :: "route list \<Rightarrow> request \<Rightarrow> (route \<times> request) option" where
  "routed [] req = None"
| "routed (r # rs) req =
     (case match_route r req of
        None \<Rightarrow> routed rs req
      | Some ps \<Rightarrow> Some (r, req\<lparr>r_params := ps\<rparr>))"

text \<open>
  A query input that is missing or does not begin with a decimal integer: after leading
  white space and at most one sign, no digit follows. (An input such as \<^verbatim>\<open>5abc\<close>
  does begin with one.)
\<close>

definition no_leading_integer :: "string option \<Rightarrow> bool" where
  "no_leading_integer input =
     (case input of
        None \<Rightarrow> True
      | Some str \<Rightarrow>
          (case trimStart str of
             [] \<Rightarrow> True
           | c # cs \<Rightarrow>
               if c = CHR ''+'' \<or> c = CHR ''-''
               then (case cs of [] \<Rightarrow> True | c' # _ \<Rightarrow> \<not> is_digit c')
               else \<not> is_digit c))"

text \<open>A string of decimal digits only, with at least one.\<close>

definition numeral_string :: "string \<Rightarrow> bool" where
  "numeral_string str = (str \<noteq> [] \<and> list_all is_digit str)"

text \<open>A numeric input in the plain sense: a decimal numeral, with or without a sign.\<close>

definition decimal_numeral :: "string \<Rightarrow> bool" where
  "decimal_numeral str =
     (case str of
        [] \<Rightarrow> False
      | c # cs \<Rightarrow> if c = CHR ''+'' \<or> c = CHR ''-'' then numeral_string cs else numeral_string str)"

text \<open>A number above the bound \<open>B\<close>.\<close>

definition exceeds :: "int \<Rightarrow> number \<Rightarrow> bool" where
  "exceeds B L = (case L of Num k \<Rightarrow> B < k | PosInf \<Rightarrow> True | _ \<Rightarrow> False)"

text \<open>The entries of an object; whether a value is an object with the key \<open>k\<close>.\<close>

fun entries :: "json \<Rightarrow> (string \<times> json) list" where
  "entries (JObj kvs) = kvs"
| "entries _ = []"

definition has_key :: "string \<Rightarrow> json \<Rightarrow> bool" where
  "has_key k j = (k \<in> fst ` set (entries j))"

text \<open>
  Somewhere in a value, at any depth, an object stored under the key \<^verbatim>\<open>User\<close> carries
  a \<^verbatim>\<open>password\<close> or an \<^verbatim>\<open>email\<close>.
\<close>

fun user_secret :: "json \<Rightarrow> bool" where
  "user_secret (JObj kvs) =
     list_ex (\<lambda>kv. (fst kv = ''User'' \<and> (has_key ''password'' (snd kv) \<or> has_key ''email'' (snd kv)))
                  \<or> user_secret (snd kv)) kvs"
| "user_secret (JArr xs) = list_ex user_secret xs"
| "user_secret _ = False"




section \<open>Sample requests, middlewares and controllers\<close>

definition unauthorized :: response where
  "unauthorized = StatusJson 401 unauthorized_body"

text \<open>A token check that lets the bearer token \<^verbatim>\<open>t0\<close> through as user 1.\<close>

definition bearer_check :: "request \<Rightarrow> mw" where
  "bearer_check req =
     (if map_of (r_headers req) ''authorization'' = Some ''Bearer t0''
      then Next (req\<lparr>r_userId := Some 1\<rparr>)
      else Respond unauthorized)"

definition sample_deps :: deps where
  "sample_deps =
     \<lparr>verifyToken = bearer_check, idParamValidator = Next, eventValidator = Next,
      updateEventValidator = Next, eventTypeParamValidator = Next, imageValidator = Next,
      commentValidator = Next, updateCommentValidator = Next\<rparr>"

definition request_of :: "http_method \<Rightarrow> string list \<Rightarrow> json \<Rightarrow> request" where
  "request_of m p b =
     \<lparr>r_method = m, r_path = p, r_query = [], r_headers = [], r_body = b, r_params = [],
      r_userId = None, r_errors = []\<rparr>"

definition picture :: json where
  "picture = JObj [(''id'', JNum 5), (''eventId'', JNum 3), (''image'', JStr ''event-5.png'')]"

definition image_controller :: controller where
  "image_controller c =
     (case c of
        image_getImages \<Rightarrow> Inr (JArr [picture])
      | image_getImage _ \<Rightarrow> Inr picture
      | image_getImagesByEvent _ \<Rightarrow> Inr (JArr [picture])
      | image_createImage _ \<Rightarrow> Inr picture
      | image_deleteImage _ \<Rightarrow> Inr (JNum 1)
      | _ \<Rightarrow> Inr JNull)"

definition owner :: json where
  "owner = JObj [(''id'', JNum 1), (''name'', JStr ''ann''), (''email'', JStr ''ann@example.org''),
                 (''password'', JStr ''hash-1'')]"

definition commenter :: json where
  "commenter = JObj [(''id'', JNum 2), (''name'', JStr ''bob''), (''email'', JStr ''bob@example.org''),
                     (''password'', JStr ''hash-2'')]"

definition journal_entry :: json where
  "journal_entry =
     JObj [(''id'', JNum 3), (''userId'', JNum 1), (''title'', JStr ''Exhaust Upgrade''),
           (''User'', owner),
           (''Vehicle'', JObj [(''id'', JNum 4), (''userId'', JNum 1), (''type'', JStr ''suv'')]),
           (''Comments'', JArr [JObj [(''id'', JNum 9), (''userId'', JNum 2),
                                       (''content'', JStr ''what a great car.'')]])]"

text \<open>An eager load two levels deep: the Comment carries its own User.\<close>

definition journal_nested :: json where
  "journal_nested =
     JObj [(''id'', JNum 3), (''userId'', JNum 1), (''title'', JStr ''Exhaust Upgrade''),
           (''User'', owner),
           (''Comments'', JArr [JObj [(''id'', JNum 9), (''userId'', JNum 2),
                                       (''content'', JStr ''what a great car.''),
                                       (''User'', commenter)]])]"

definition event_controller :: controller where
  "event_controller c =
     (case c of
        event_getEventIncludeAll _ \<Rightarrow> Inr journal_entry
      | _ \<Rightarrow> Inr JNull)"

text \<open>
  Requests for the list of events: with the limit \<open>1\<close> followed by \<open>n\<close> zeros, and with
  a given limit.
\<close>

definition limit_query :: "string \<Rightarrow> request" where
  "limit_query str = (request_of GET [] JNull)\<lparr>r_query := [(''limit'', str)]\<rparr>"

definition big_query :: "nat \<Rightarrow> request" where
  "big_query n = (request_of GET [] JNull)\<lparr>r_query := [(''limit'', CHR ''1'' # replicate n CHR ''0'')]\<rparr>"


text \<open>User 1 owns vehicle 1; user 2 wrote event 7 about it.\<close>

definition story7 :: event where
  "story7 =
     \<lparr>e_id = 7, e_userId = 2, e_vehicleid = 1, e_title = ''Road trip'', e_detail = None,
      e_type = story, e_date = ''2023-06-12'', e_published = True\<rparr>"

definition yard :: db where
  "yard = \<lparr>vehicles = [car 1 1 ''suv'' 10], events = [story7], nextEventId = 8\<rparr>"

definition retitle :: eventData where
  "retitle =
     \<lparr>ed_userId = None, ed_vehicleid = None, ed_title = Some ''x'', ed_detail = None,
      ed_type = None, ed_date = None, ed_published = None\<rparr>"

definition new_event :: "int \<Rightarrow> nat \<Rightarrow> eventData" where
  "new_event u v =
     \<lparr>ed_userId = Some u, ed_vehicleid = Some v, ed_title = Some ''Exhaust Upgrade'',
      ed_detail = None, ed_type = Some modification, ed_date = Some ''2023-06-12'',
      ed_published = None\<rparr>"

section \<open>Vehicle mutations and ownership\<close>

text \<open>
  Claim C1. A Vehicle mutation by a caller who is not the owner returns the sentinel 401
  and leaves the Store as it was: for \<open>createVehicle\<close> the owner is the payload's
  \<^verbatim>\<open>userId\<close>, for \<open>updateVehicle\<close> and \<open>deleteVehicle\<close> it is the \<^verbatim>\<open>userId\<close> of the
  stored row with the given id.
\<close>

theorem vehicle_mutation_denied:
  "(d_userId data \<noteq> Some caller \<longrightarrow>
      createVehicle saveImage accepts now data caller s = (Inr (Sentinel 401), s)) \<and>
   (Vehicle_findOne i s = Some row \<and> v_userId row \<noteq> caller \<longrightarrow>
      updateVehicle saveImage accepts i data caller s = (Inr (Sentinel 401), s) \<and>
      deleteVehicle i caller s = (Inr (Sentinel 401), s))"
  by (simp add: createVehicle_def updateVehicle_def deleteVehicle_def)

theorem vehicle_mutation_denied_witness:
  "createVehicle blob (\<lambda>_. True) 30 (payload 1 None) 2 garage = (Inr (Sentinel 401), garage) \<and>
   updateVehicle blob (\<lambda>_. True) 1 (payload 1 None) 2 garage = (Inr (Sentinel 401), garage) \<and>
   deleteVehicle 1 2 garage = (Inr (Sentinel 401), garage)"
  using vehicle_mutation_denied
    [of "payload 1 None" 2 blob "\<lambda>_. True" 30 garage 1 "car 1 1 ''suv'' 10"]
  by (simp add: Vehicle_findOne_def garage_def car_def payload_def)

text \<open>
  Claim C2. An update or a delete whose id matches no row should give NotFound. In the
  vehicle controller it does not: \<^verbatim>\<open>findOne\<close> gives \<^verbatim>\<open>null\<close>, the owner check reads
  \<^verbatim>\<open>userId\<close> of it, and the call ends with a TypeError. Here vehicle 99 is not in the
  Store.
\<close>

theorem missing_vehicle_throws:
  "updateVehicle blob (\<lambda>_. True) 99 (payload 1 None) 1 garage = (Inl TypeError, garage) \<and>
   deleteVehicle 99 1 garage = (Inl TypeError, garage)"
  by (simp add: updateVehicle_def deleteVehicle_def Vehicle_findOne_def garage_def car_def)

lemma missing_row_throws:
  "Vehicle_findOne i s = None \<Longrightarrow>
     updateVehicle saveImage accepts i data caller s = (Inl TypeError, s) \<and>
     deleteVehicle i caller s = (Inl TypeError, s)"
  by (simp add: updateVehicle_def deleteVehicle_def)

section \<open>Vehicles by type\<close>

text \<open>
  Claim C7, as stated, bounds the result of the query by type by 5. The controller's
  \<open>getVehiclesByType\<close> takes the type only: with six vehicles of type \<open>suv\<close> in the
  Store, all six are returned.
\<close>

theorem by_type_unbounded_counterexample:
  "\<not> length (getVehiclesByType ''suv'' six_suvs) \<le> 5"
  by (simp add: getVehiclesByType_def six_suvs_def car_def)

lemma length_by_type_fleet: "length (getVehiclesByType t (fleet n t)) = n"
  by (simp add: getVehiclesByType_def fleet_def car_def)

text \<open>
  Claim C7, amended. Every Vehicle returned by the query by type has the requested type,
  every stored Vehicle of that type is returned, and the result keeps the Store's row
  order; no limit applies: a Store with \<open>n\<close> vehicles of the type gives all \<open>n\<close>.
\<close>

theorem by_type_all_of_type:
  "(\<forall>v \<in> set (getVehiclesByType t s). v_type v = t) \<and>
   (\<forall>v \<in> set (rows s). v_type v = t \<longrightarrow> v \<in> set (getVehiclesByType t s)) \<and>
   subseq (getVehiclesByType t s) (rows s) \<and>
   length (getVehiclesByType t (fleet n t)) = n"
  by (simp add: getVehiclesByType_def length_by_type_fleet [unfolded getVehiclesByType_def])

theorem by_type_all_of_type_witness:
  "car 1 1 ''suv'' 10 \<in> set (rows garage) \<and>
   car 1 1 ''suv'' 10 \<in> set (getVehiclesByType ''suv'' garage) \<and>
   length (getVehiclesByType ''suv'' (fleet 7 ''suv'')) = 7"
proof -
  have stored: "car 1 1 ''suv'' 10 \<in> set (rows garage)"
    by (simp add: garage_def)
  have typed: "v_type (car 1 1 ''suv'' 10) = ''suv''"
    by (simp add: car_def)
  from by_type_all_of_type [of "''suv''" garage 7] stored typed show ?thesis
    by blast
qed

section \<open>The image of a new Vehicle\<close>

lemma create_persists:
  assumes "d_userId data = Some caller" and "d_type data = Some t"
    and "(if truthy_image (d_image data) then saveImage (the (d_image data)) ''vehicle''
          else Inr ''default.png'') = Inr ref"
    and "accepts (new_row now data caller t ref s)"
    and "v_id (new_row now data caller t ref s) \<notin> v_id ` set (rows s)"
  shows "createVehicle saveImage accepts now data caller s =
           (Inr (Payload (new_row now data caller t ref s)),
            s\<lparr>rows := rows s @ [new_row now data caller t ref s],
              nextId := max (nextId s) (Suc (v_id (new_row now data caller t ref s)))\<rparr>)"
proof -
  have same: "new_row now (data\<lparr>d_image := Some ref\<rparr>) caller t ref s = new_row now data caller t ref s"
    by (simp add: new_row_def)
  from assms show ?thesis
    by (simp add: createVehicle_def Vehicle_create_def same Let_def)
qed

lemma create_returns:
  assumes "createVehicle saveImage accepts now data caller s = (Inr (Payload row), s')"
  shows "(\<not> truthy_image (d_image data) \<longrightarrow> v_image row = ''default.png'') \<and>
         (\<forall>img. d_image data = Some img \<and> img \<noteq> [] \<longrightarrow>
            saveImage img ''vehicle'' = Inr (v_image row)) \<and>
         rows s' = rows s @ [row]"
  using assms
  by (auto simp: createVehicle_def Vehicle_create_def truthy_image_def new_row_def Let_def
      split: if_splits sum.splits option.splits prod.splits)

text \<open>
  Claim C8. Let the caller be the payload's user and the payload name a type. When the
  payload has no image (the field is missing or empty), \<open>createVehicle\<close> persists a row
  whose image is \<^verbatim>\<open>default.png\<close>, provided the Store takes the row; when it has one
  and the upload manager returns a reference for it, the row persisted carries that
  reference. The row is appended to the table and returned. Conversely, whenever
  \<open>createVehicle\<close> returns a row, its image is \<^verbatim>\<open>default.png\<close> (not empty) for a
  payload without image and the upload manager's reference otherwise.
\<close>

theorem create_image_ref:
  assumes "d_userId data = Some caller" and "d_type data = Some t"
  shows "(\<not> truthy_image (d_image data) \<and>
          accepts (new_row now data caller t ''default.png'' s) \<and>
          v_id (new_row now data caller t ''default.png'' s) \<notin> v_id ` set (rows s) \<longrightarrow>
            createVehicle saveImage accepts now data caller s =
              (Inr (Payload (new_row now data caller t ''default.png'' s)),
               s\<lparr>rows := rows s @ [new_row now data caller t ''default.png'' s],
                 nextId := max (nextId s)
                             (Suc (v_id (new_row now data caller t ''default.png'' s)))\<rparr>) \<and>
            v_image (new_row now data caller t ''default.png'' s) = ''default.png'') \<and>
         (\<forall>img ref. d_image data = Some img \<and> img \<noteq> [] \<and>
            saveImage img ''vehicle'' = Inr ref \<and>
            accepts (new_row now data caller t ref s) \<and>
            v_id (new_row now data caller t ref s) \<notin> v_id ` set (rows s) \<longrightarrow>
              createVehicle saveImage accepts now data caller s =
                (Inr (Payload (new_row now data caller t ref s)),
                 s\<lparr>rows := rows s @ [new_row now data caller t ref s],
                   nextId := max (nextId s) (Suc (v_id (new_row now data caller t ref s)))\<rparr>) \<and>
              v_image (new_row now data caller t ref s) = ref) \<and>
         (\<forall>row s'. createVehicle saveImage accepts now data caller s = (Inr (Payload row), s') \<longrightarrow>
            (\<not> truthy_image (d_image data) \<longrightarrow>
               v_image row = ''default.png'' \<and> v_image row \<noteq> []) \<and>
            (\<forall>img. d_image data = Some img \<and> img \<noteq> [] \<longrightarrow>
               saveImage img ''vehicle'' = Inr (v_image row)) \<and>
            rows s' = rows s @ [row])"
proof -
  have no_image: "\<not> truthy_image (d_image data) \<and>
          accepts (new_row now data caller t ''default.png'' s) \<and>
          v_id (new_row now data caller t ''default.png'' s) \<notin> v_id ` set (rows s) \<longrightarrow>
            createVehicle saveImage accepts now data caller s =
              (Inr (Payload (new_row now data caller t ''default.png'' s)),
               s\<lparr>rows := rows s @ [new_row now data caller t ''default.png'' s],
                 nextId := max (nextId s)
                             (Suc (v_id (new_row now data caller t ''default.png'' s)))\<rparr>) \<and>
            v_image (new_row now data caller t ''default.png'' s) = ''default.png''"
  proof (intro impI conjI)
    assume "\<not> truthy_image (d_image data) \<and>
          accepts (new_row now data caller t ''default.png'' s) \<and>
          v_id (new_row now data caller t ''default.png'' s) \<notin> v_id ` set (rows s)"
    with assms show "createVehicle saveImage accepts now data caller s =
              (Inr (Payload (new_row now data caller t ''default.png'' s)),
               s\<lparr>rows := rows s @ [new_row now data caller t ''default.png'' s],
                 nextId := max (nextId s)
                             (Suc (v_id (new_row now data caller t ''default.png'' s)))\<rparr>)"
      by (intro create_persists) simp_all
    show "v_image (new_row now data caller t ''default.png'' s) = ''default.png''"
      by (simp add: new_row_def)
  qed
  have with_image: "d_image data = Some img \<and> img \<noteq> [] \<and>
            saveImage img ''vehicle'' = Inr ref \<and>
            accepts (new_row now data caller t ref s) \<and>
            v_id (new_row now data caller t ref s) \<notin> v_id ` set (rows s) \<longrightarrow>
              createVehicle saveImage accepts now data caller s =
                (Inr (Payload (new_row now data caller t ref s)),
                 s\<lparr>rows := rows s @ [new_row now data caller t ref s],
                   nextId := max (nextId s) (Suc (v_id (new_row now data caller t ref s)))\<rparr>) \<and>
              v_image (new_row now data caller t ref s) = ref" for img ref
  proof (intro impI conjI)
    assume "d_image data = Some img \<and> img \<noteq> [] \<and>
            saveImage img ''vehicle'' = Inr ref \<and>
            accepts (new_row now data caller t ref s) \<and>
            v_id (new_row now data caller t ref s) \<notin> v_id ` set (rows s)"
    with assms show "createVehicle saveImage accepts now data caller s =
                (Inr (Payload (new_row now data caller t ref s)),
                 s\<lparr>rows := rows s @ [new_row now data caller t ref s],
                   nextId := max (nextId s) (Suc (v_id (new_row now data caller t ref s)))\<rparr>)"
      by (intro create_persists) (simp_all add: truthy_image_def)
    show "v_image (new_row now data caller t ref s) = ref"
      by (simp add: new_row_def)
  qed
  have returned: "createVehicle saveImage accepts now data caller s = (Inr (Payload row), s') \<longrightarrow>
            (\<not> truthy_image (d_image data) \<longrightarrow>
               v_image row = ''default.png'' \<and> v_image row \<noteq> []) \<and>
            (\<forall>img. d_image data = Some img \<and> img \<noteq> [] \<longrightarrow>
               saveImage img ''vehicle'' = Inr (v_image row)) \<and>
            rows s' = rows s @ [row]" for row s'
  proof
    assume "createVehicle saveImage accepts now data caller s = (Inr (Payload row), s')"
    from create_returns [OF this] show "(\<not> truthy_image (d_image data) \<longrightarrow>
               v_image row = ''default.png'' \<and> v_image row \<noteq> []) \<and>
            (\<forall>img. d_image data = Some img \<and> img \<noteq> [] \<longrightarrow>
               saveImage img ''vehicle'' = Inr (v_image row)) \<and>
            rows s' = rows s @ [row]"
      by simp
  qed
  from no_image with_image returned show ?thesis
    by (intro conjI allI)
qed

lemma row_no_image:
  "new_row 30 (payload 1 None) 1 ''suv'' ''default.png'' garage = car 3 1 ''suv'' 30"
  by (simp add: new_row_def payload_def garage_def car_def)

lemma row_with_image:
  "new_row 30 (payload 1 (Some ''abc'')) 1 ''suv'' ''vehicle-1.png'' garage =
     (car 3 1 ''suv'' 30)\<lparr>v_image := ''vehicle-1.png''\<rparr>"
  by (simp add: new_row_def payload_def garage_def car_def)

theorem create_image_ref_witness:
  "createVehicle blob (\<lambda>_. True) 30 (payload 1 None) 1 garage =
     (Inr (Payload (car 3 1 ''suv'' 30)),
      garage\<lparr>rows := rows garage @ [car 3 1 ''suv'' 30], nextId := 4\<rparr>) \<and>
   createVehicle blob (\<lambda>_. True) 30 (payload 1 (Some ''abc'')) 1 garage =
     (Inr (Payload ((car 3 1 ''suv'' 30)\<lparr>v_image := ''vehicle-1.png''\<rparr>)),
      garage\<lparr>rows := rows garage @ [(car 3 1 ''suv'' 30)\<lparr>v_image := ''vehicle-1.png''\<rparr>],
             nextId := 4\<rparr>)"
proof
  have u: "d_userId (payload 1 None) = Some 1" and t: "d_type (payload 1 None) = Some ''suv''"
    by (simp_all add: payload_def)
  have free: "v_id (car 3 1 ''suv'' 30) \<notin> v_id ` set (rows garage)"
    by (simp add: garage_def car_def)
  have "\<not> truthy_image (d_image (payload 1 None))"
    by (simp add: payload_def truthy_image_def)
  with free
    create_image_ref [OF u t, where accepts = "\<lambda>_. True" and now = 30 and s = garage
      and saveImage = blob, THEN conjunct1]
  have "createVehicle blob (\<lambda>_. True) 30 (payload 1 None) 1 garage =
     (Inr (Payload (car 3 1 ''suv'' 30)),
      garage\<lparr>rows := rows garage @ [car 3 1 ''suv'' 30],
             nextId := max (nextId garage) (Suc (v_id (car 3 1 ''suv'' 30)))\<rparr>)"
    by (simp add: row_no_image)
  then show "createVehicle blob (\<lambda>_. True) 30 (payload 1 None) 1 garage =
     (Inr (Payload (car 3 1 ''suv'' 30)),
      garage\<lparr>rows := rows garage @ [car 3 1 ''suv'' 30], nextId := 4\<rparr>)"
    by (simp add: garage_def car_def)
next
  have u: "d_userId (payload 1 (Some ''abc'')) = Some 1"
    and t: "d_type (payload 1 (Some ''abc'')) = Some ''suv''"
    by (simp_all add: payload_def)
  have free: "v_id ((car 3 1 ''suv'' 30)\<lparr>v_image := ''vehicle-1.png''\<rparr>) \<notin> v_id ` set (rows garage)"
    by (simp add: garage_def car_def)
  have img: "d_image (payload 1 (Some ''abc'')) = Some ''abc''"
    by (simp add: payload_def)
  have saved: "blob ''abc'' ''vehicle'' = Inr ''vehicle-1.png''"
    by (simp add: blob_def)
  from free img saved
    create_image_ref [OF u t, where accepts = "\<lambda>_. True" and now = 30 and s = garage
      and saveImage = blob, THEN conjunct2, THEN conjunct1, rule_format,
      of "''abc''" "''vehicle-1.png''"]
  have "createVehicle blob (\<lambda>_. True) 30 (payload 1 (Some ''abc'')) 1 garage =
     (Inr (Payload ((car 3 1 ''suv'' 30)\<lparr>v_image := ''vehicle-1.png''\<rparr>)),
      garage\<lparr>rows := rows garage @ [(car 3 1 ''suv'' 30)\<lparr>v_image := ''vehicle-1.png''\<rparr>],
             nextId := max (nextId garage)
                         (Suc (v_id ((car 3 1 ''suv'' 30)\<lparr>v_image := ''vehicle-1.png''\<rparr>)))\<rparr>)"
    by (simp add: row_with_image)
  then show "createVehicle blob (\<lambda>_. True) 30 (payload 1 (Some ''abc'')) 1 garage =
     (Inr (Payload ((car 3 1 ''suv'' 30)\<lparr>v_image := ''vehicle-1.png''\<rparr>)),
      garage\<lparr>rows := rows garage @ [(car 3 1 ''suv'' 30)\<lparr>v_image := ''vehicle-1.png''\<rparr>],
             nextId := 4\<rparr>)"
    by (simp add: garage_def car_def)
qed

section \<open>How the routers dispatch\<close>

text \<open>
  No handler of the three routers passes a request on: each answers or fails. So the
  first route that matches is the only one that runs.
\<close>

lemma invoke_trace: "snd (invoke ctl c k) = [c]"
  by (simp add: invoke_def split: sum.splits)

lemma validated_trace: "set (snd (validated req k)) \<subseteq> set (snd k)"
  by (simp add: validated_def)

lemma trace_validated_invoke: "set (snd (validated q (invoke ctl c k))) \<subseteq> {c}"
  by (auto simp: validated_def invoke_def split: sum.splits)

lemma run_chain_no_pass:
  "(\<And>q. fst (h q ctl) \<noteq> Pass) \<Longrightarrow> fst (run_chain ms h req ctl) \<noteq> Pass"
  by (induction ms arbitrary: req) (auto split: mw.splits)

lemma run_chain_trace:
  "(\<And>q. set (snd (h q ctl)) \<subseteq> T) \<Longrightarrow> set (snd (run_chain ms h req ctl)) \<subseteq> T"
  by (induction ms arbitrary: req) (auto split: mw.splits)

lemma dispatch_routed:
  assumes "\<And>r q. r \<in> set rs \<Longrightarrow> fst (rt_handler r q ctl) \<noteq> Pass"
  shows "dispatch rs ctl req =
         (case routed rs req of
            None \<Rightarrow> (Pass, [])
          | Some (r, req') \<Rightarrow> run_chain (rt_chain r) (rt_handler r) req' ctl)"
  using assms
proof (induction rs)
  case Nil
  show ?case by simp
next
  case (Cons r rs)
  show ?case
  proof (cases "match_route r req")
    case None
    with Cons show ?thesis by simp
  next
    case (Some ps)
    have "fst (run_chain (rt_chain r) (rt_handler r) (req\<lparr>r_params := ps\<rparr>) ctl) \<noteq> Pass"
      by (rule run_chain_no_pass) (simp add: Cons.prems)
    with Some show ?thesis
      by (cases "run_chain (rt_chain r) (rt_handler r) (req\<lparr>r_params := ps\<rparr>) ctl")
         (auto split: outcome.splits)
  qed
qed

lemma fst_invoke_Pass:
  "(fst (invoke ctl c k) = Pass) = (\<exists>data. ctl c = Inr data \<and> k data = Pass)"
  by (auto simp: invoke_def split: sum.splits)

lemma fst_validated_Pass:
  "(fst (validated req k) = Pass) = (r_errors req = [] \<and> fst k = Pass)"
  by (simp add: validated_def)

lemmas image_handler_defs =
  images_get_all_def images_get_id_def images_get_by_event_def images_post_def images_delete_def

lemmas event_handler_defs =
  events_get_all_def events_get_id_def events_get_include_def events_get_by_vehicle_def
  events_get_by_type_def events_post_def events_put_def events_delete_def

lemmas comment_handler_defs =
  comments_get_all_def comments_get_id_def comments_get_by_event_def comments_get_by_user_def
  comments_post_def comments_put_def comments_delete_def

lemma image_handlers_no_pass:
  "r \<in> set (imageRoutes d) \<Longrightarrow> fst (rt_handler r q ctl) \<noteq> Pass"
  by (auto simp: imageRoutes_def image_handler_defs fst_invoke_Pass fst_validated_Pass)

lemma include_reply_no_pass: "include_reply data \<noteq> Pass"
  by (cases data) (simp_all add: include_reply_def)

lemma event_handlers_no_pass:
  "r \<in> set (eventRoutes d) \<Longrightarrow> fst (rt_handler r q ctl) \<noteq> Pass"
  by (auto simp: eventRoutes_def event_handler_defs fst_invoke_Pass fst_validated_Pass
      include_reply_no_pass)

lemma comment_handlers_no_pass:
  "r \<in> set (commentRoutes d) \<Longrightarrow> fst (rt_handler r q ctl) \<noteq> Pass"
  by (auto simp: commentRoutes_def comment_handler_defs fst_invoke_Pass fst_validated_Pass)

lemma dispatch_images:
  "dispatch (imageRoutes d) ctl req =
     (case routed (imageRoutes d) req of
        None \<Rightarrow> (Pass, [])
      | Some (r, req') \<Rightarrow> run_chain (rt_chain r) (rt_handler r) req' ctl)"
  by (rule dispatch_routed) (rule image_handlers_no_pass)

lemma dispatch_events:
  "dispatch (eventRoutes d) ctl req =
     (case routed (eventRoutes d) req of
        None \<Rightarrow> (Pass, [])
      | Some (r, req') \<Rightarrow> run_chain (rt_chain r) (rt_handler r) req' ctl)"
  by (rule dispatch_routed) (rule event_handlers_no_pass)

lemma dispatch_comments:
  "dispatch (commentRoutes d) ctl req =
     (case routed (commentRoutes d) req of
        None \<Rightarrow> (Pass, [])
      | Some (r, req') \<Rightarrow> run_chain (rt_chain r) (rt_handler r) req' ctl)"
  by (rule dispatch_routed) (rule comment_handlers_no_pass)

section \<open>The two routes at \<^verbatim>\<open>/:id\<close> of the image router\<close>

lemma images_get_id_trace: "set (snd (images_get_id q ctl)) \<subseteq> range image_getImage"
  unfolding images_get_id_def
  by (rule subset_trans [OF validated_trace]) (simp add: invoke_trace)

lemma routed_images:
  "routed (imageRoutes d) req = Some (r, req') \<Longrightarrow>
     rt_handler r = images_get_all \<or> rt_handler r = images_get_id \<or>
     rt_handler r = images_post \<or> rt_handler r = images_delete"
  by (auto simp: imageRoutes_def match_route_def split: if_splits option.splits)

lemma images_never_by_event:
  "image_getImagesByEvent j \<notin> set (snd (dispatch (imageRoutes d) ctl req))"
proof (cases "routed (imageRoutes d) req")
  case None
  then show ?thesis by (simp add: dispatch_images)
next
  case (Some a)
  obtain r req' where a: "a = (r, req')" by (cases a)
  have "set (snd (rt_handler r q ctl)) \<subseteq> - range image_getImagesByEvent" for q
    using routed_images [OF Some [unfolded a]] trace_validated_invoke
    by (auto simp: image_handler_defs invoke_trace dest!: subsetD [OF trace_validated_invoke])
  then have "set (snd (run_chain (rt_chain r) (rt_handler r) req' ctl)) \<subseteq> - range image_getImagesByEvent"
    by (rule run_chain_trace)
  with Some a show ?thesis by (auto simp: dispatch_images)
qed

lemma routed_image_get:
  "r_method req = GET \<Longrightarrow> r_path req = [x] \<Longrightarrow>
   routed (imageRoutes d) req =
     Some (\<lparr>rt_method = GET, rt_pattern = [Param ''id''], rt_chain = [idParamValidator d],
            rt_handler = images_get_id\<rparr>, req\<lparr>r_params := [(''id'', x)]\<rparr>)"
  by (simp add: imageRoutes_def match_route_def)

lemma routed_without_second:
  "routed (take 2 (imageRoutes d) @ drop 3 (imageRoutes d)) req =
     routed (imageRoutes d) req"
  by (auto simp: imageRoutes_def match_route_def split: option.splits)

lemma dispatch_without_second:
  "dispatch (take 2 (imageRoutes d) @ drop 3 (imageRoutes d)) ctl req =
     dispatch (imageRoutes d) ctl req"
proof -
  have "r \<in> set (imageRoutes d)" if "r \<in> set (take 2 (imageRoutes d) @ drop 3 (imageRoutes d))" for r
    using that by (auto dest: in_set_takeD in_set_dropD)
  then have "dispatch (take 2 (imageRoutes d) @ drop 3 (imageRoutes d)) ctl req =
     (case routed (take 2 (imageRoutes d) @ drop 3 (imageRoutes d)) req of
        None \<Rightarrow> (Pass, [])
      | Some (r, req') \<Rightarrow> run_chain (rt_chain r) (rt_handler r) req' ctl)"
    by (intro dispatch_routed image_handlers_no_pass)
  then show ?thesis
    by (simp add: routed_without_second dispatch_images)
qed

text \<open>
  Claim C10. The image router registers two \<^verbatim>\<open>GET /:id\<close> routes. For every request,
  whatever the middlewares and the controller do, the controller's
  \<^verbatim>\<open>getImagesByEvent\<close> is never called, and the router answers as it would without
  the second of the two routes. A \<^verbatim>\<open>GET\<close> of a one-segment path (below the mount
  point \<^verbatim>\<open>/api/images\<close>) is handled by the first of the two, the lookup of one image,
  and the only controller operation it can call is \<^verbatim>\<open>getImage\<close>.
\<close>

theorem images_by_event_unreachable:
  "image_getImagesByEvent j \<notin> set (snd (dispatch (imageRoutes d) ctl req)) \<and>
   dispatch (take 2 (imageRoutes d) @ drop 3 (imageRoutes d)) ctl req =
     dispatch (imageRoutes d) ctl req \<and>
   (r_method req = GET \<and> r_path req = [x] \<longrightarrow>
      dispatch (imageRoutes d) ctl req =
        run_chain [idParamValidator d] images_get_id (req\<lparr>r_params := [(''id'', x)]\<rparr>) ctl \<and>
      set (snd (dispatch (imageRoutes d) ctl req)) \<subseteq> range image_getImage)"
proof (intro conjI impI)
  show "image_getImagesByEvent j \<notin> set (snd (dispatch (imageRoutes d) ctl req))"
    by (rule images_never_by_event)
next
  show "dispatch (take 2 (imageRoutes d) @ drop 3 (imageRoutes d)) ctl req =
     dispatch (imageRoutes d) ctl req"
    by (rule dispatch_without_second)
next
  assume get: "r_method req = GET \<and> r_path req = [x]"
  then show eq: "dispatch (imageRoutes d) ctl req =
        run_chain [idParamValidator d] images_get_id (req\<lparr>r_params := [(''id'', x)]\<rparr>) ctl"
    by (simp add: dispatch_images routed_image_get)
  have "set (snd (run_chain [idParamValidator d] images_get_id (req\<lparr>r_params := [(''id'', x)]\<rparr>) ctl))
        \<subseteq> range image_getImage"
    by (rule run_chain_trace) (rule images_get_id_trace)
  with eq show "set (snd (dispatch (imageRoutes d) ctl req)) \<subseteq> range image_getImage"
    by simp
qed

theorem images_by_event_unreachable_witness:
  "dispatch (imageRoutes sample_deps) image_controller (request_of GET [''3''] JNull) =
     (Responded (Send (envelope picture)), [image_getImage (JStr ''3'')])"
  using images_by_event_unreachable
    [of _ sample_deps image_controller "request_of GET [''3''] JNull" "''3''"]
  by (simp add: request_of_def sample_deps_def images_get_id_def validated_def invoke_def
      image_controller_def param_def found_or_404_def picture_def)

section \<open>The response envelope\<close>

text \<open>
  Claim C9. Successful responses are to be wrapped as \<^verbatim>\<open>{result: 200, data: ...}\<close>.
  The list route of the image router sends the controller's data as it is: for
  \<^verbatim>\<open>GET /api/images\<close> the body is the bare list of images.
\<close>

theorem image_list_bare:
  "dispatch (imageRoutes sample_deps) image_controller (request_of GET [] JNull) =
     (Responded (Send (JArr [picture])), [image_getImages]) \<and>
   JArr [picture] \<noteq> envelope (JArr [picture])"
  by (simp add: imageRoutes_def match_route_def request_of_def images_get_all_def invoke_def
      image_controller_def envelope_def)

text \<open>
  Every other handler of the three routers wraps what it sends: a body sent with
  \<^verbatim>\<open>res.send\<close> is an envelope.
\<close>

lemma validated_invoke_send:
  assumes "validated req (invoke ctl c k) = (Responded (Send body), tr)"
  shows "\<exists>data. k data = Responded (Send body)"
  using assms by (auto simp: validated_def invoke_def split: if_splits sum.splits)

lemma found_or_404_send: "found_or_404 data = Send body \<Longrightarrow> \<exists>x. body = envelope x"
  by (auto simp: found_or_404_def split: if_splits)

lemma by_sentinel_send: "by_sentinel data = Send body \<Longrightarrow> \<exists>x. body = envelope x"
  by (auto simp: by_sentinel_def split: if_splits)

lemma include_reply_send:
  "include_reply data = Responded (Send body) \<Longrightarrow> \<exists>x. body = envelope x"
  by (cases data) (auto simp: include_reply_def split: if_splits)

lemma invoke_send:
  assumes "invoke ctl c k = (Responded (Send body), tr)"
  shows "\<exists>data. k data = Responded (Send body)"
  using assms by (auto simp: invoke_def split: sum.splits)

lemma other_routes_envelope:
  assumes "r \<in> set (tl (imageRoutes d)) \<union> set (eventRoutes d) \<union> set (commentRoutes d)"
    and "rt_handler r req ctl = (Responded (Send body), tr)"
  shows "\<exists>data. body = envelope data"
  using assms
  by (auto simp: imageRoutes_def eventRoutes_def commentRoutes_def image_handler_defs
      event_handler_defs comment_handler_defs
      dest!: validated_invoke_send invoke_send found_or_404_send by_sentinel_send
        include_reply_send)

section \<open>Mutating endpoints and the bearer credential\<close>

lemma routed_events_mutation:
  "routed (eventRoutes d) req = Some (r, req') \<Longrightarrow> r_method req \<noteq> GET \<Longrightarrow>
     \<exists>m. rt_chain r = [verifyToken d, m]"
  by (auto simp: eventRoutes_def match_route_def split: if_splits option.splits)

lemma routed_comments_mutation:
  "routed (commentRoutes d) req = Some (r, req') \<Longrightarrow> r_method req \<noteq> GET \<Longrightarrow>
     \<exists>m. rt_chain r = [verifyToken d, m]"
  by (auto simp: commentRoutes_def match_route_def split: if_splits option.splits)

text \<open>
  The event router and the comment router: for every request whose method is not
  \<^verbatim>\<open>GET\<close> (create, update, delete), either no route takes it, or \<^verbatim>\<open>verifyToken\<close>
  runs first on it. When \<^verbatim>\<open>verifyToken\<close> answers by itself (no valid credential), its
  answer is the response and no controller operation runs; the same holds when it fails.
  Only when it hands the request on do the validator and the handler run.
\<close>

theorem mutations_need_token:
  assumes "r_method req \<noteq> GET" and "routes = eventRoutes d \<or> routes = commentRoutes d"
  shows "case routed routes req of
           None \<Rightarrow> dispatch routes ctl req = (Pass, [])
         | Some (r, req') \<Rightarrow>
             (case verifyToken d req' of
                Next req'' \<Rightarrow>
                  dispatch routes ctl req = run_chain (tl (rt_chain r)) (rt_handler r) req'' ctl
              | NextErr e \<Rightarrow> dispatch routes ctl req = (Failed e, [])
              | Respond resp \<Rightarrow> dispatch routes ctl req = (Responded resp, []))"
proof -
  have disp: "dispatch routes ctl req =
     (case routed routes req of
        None \<Rightarrow> (Pass, [])
      | Some (r, req') \<Rightarrow> run_chain (rt_chain r) (rt_handler r) req' ctl)"
    using assms(2) dispatch_events dispatch_comments by blast
  show ?thesis
  proof (cases "routed routes req")
    case None
    with disp show ?thesis by simp
  next
    case (Some a)
    obtain r req' where a: "a = (r, req')" by (cases a)
    from Some a assms obtain m where "rt_chain r = [verifyToken d, m]"
      using routed_events_mutation routed_comments_mutation by blast
    with Some a disp show ?thesis
      by (simp split: mw.splits)
  qed
qed

theorem mutations_need_token_witness:
  "dispatch (eventRoutes sample_deps) event_controller (request_of PUT [''3''] JNull) =
     (Responded unauthorized, []) \<and>
   dispatch (commentRoutes sample_deps) event_controller (request_of POST [] JNull) =
     (Responded unauthorized, [])"
  using mutations_need_token [of "request_of PUT [''3''] JNull" "eventRoutes sample_deps" sample_deps event_controller]
    mutations_need_token [of "request_of POST [] JNull" "commentRoutes sample_deps" sample_deps event_controller]
  by (simp add: request_of_def eventRoutes_def commentRoutes_def match_route_def sample_deps_def bearer_check_def)

text \<open>
  The image router: its routes do not depend on \<^verbatim>\<open>verifyToken\<close> at all, and a create
  or a delete whose validation passes calls the controller, whatever credential the
  request carries.
\<close>

lemma image_routes_ignore_token: "imageRoutes (d\<lparr>verifyToken := v\<rparr>) = imageRoutes d"
  by (simp add: imageRoutes_def)

lemma image_post_open:
  assumes "r_method req = POST" and "r_path req = []"
    and "imageValidator d (req\<lparr>r_params := []\<rparr>) = Next req'" and "r_errors req' = []"
  shows "snd (dispatch (imageRoutes d) ctl req) = [image_createImage (r_body req')]"
proof -
  from assms(1,2) have "routed (imageRoutes d) req =
      Some (\<lparr>rt_method = POST, rt_pattern = [], rt_chain = [imageValidator d],
             rt_handler = images_post\<rparr>, req\<lparr>r_params := []\<rparr>)"
    by (simp add: imageRoutes_def match_route_def)
  with assms(3,4) show ?thesis
    by (simp add: dispatch_images images_post_def validated_def invoke_trace)
qed

lemma image_delete_open:
  assumes "r_method req = DELETE" and "r_path req = [x]"
    and "idParamValidator d (req\<lparr>r_params := [(''id'', x)]\<rparr>) = Next req'"
    and "r_errors req' = []"
  shows "snd (dispatch (imageRoutes d) ctl req) = [image_deleteImage (param req' ''id'')]"
proof -
  from assms(1,2) have "routed (imageRoutes d) req =
      Some (\<lparr>rt_method = DELETE, rt_pattern = [Param ''id''], rt_chain = [idParamValidator d],
             rt_handler = images_delete\<rparr>, req\<lparr>r_params := [(''id'', x)]\<rparr>)"
    by (simp add: imageRoutes_def match_route_def)
  with assms(3,4) show ?thesis
    by (simp add: dispatch_images images_delete_def validated_def invoke_trace)
qed

text \<open>
  Claim C5. Every mutating endpoint is to run behind the check of the bearer credential,
  those of images included. The image router does not use \<^verbatim>\<open>verifyToken\<close>: a
  \<^verbatim>\<open>POST /api/images\<close> and a \<^verbatim>\<open>DELETE /api/images/5\<close> without a credential, which
  the token check refuses, run the controller's \<^verbatim>\<open>createImage\<close> and
  \<^verbatim>\<open>deleteImage\<close> and succeed.
\<close>

theorem image_mutations_unguarded:
  "verifyToken sample_deps (request_of POST [] picture) = Respond unauthorized \<and>
   dispatch (imageRoutes sample_deps) image_controller (request_of POST [] picture) =
     (Responded (Send (envelope picture)), [image_createImage picture]) \<and>
   verifyToken sample_deps ((request_of DELETE [''5''] JNull)\<lparr>r_params := [(''id'', ''5'')]\<rparr>) = Respond unauthorized \<and>
   dispatch (imageRoutes sample_deps) image_controller (request_of DELETE [''5''] JNull) =
     (Responded (Send (envelope (JNum 1))), [image_deleteImage (JStr ''5'')])"
  by (simp add: imageRoutes_def match_route_def request_of_def sample_deps_def bearer_check_def
      images_post_def images_delete_def validated_def invoke_def image_controller_def
      found_or_404_def picture_def param_def)

section \<open>Limit and offset of a list query\<close>

lemma ws_first_not_digit: "w \<in> set white_space \<Longrightarrow> w \<noteq> [] \<and> \<not> is_digit (hd w)"
  by (auto simp: white_space_def is_digit_def)

lemma ws_prefix_digit: "is_digit c \<Longrightarrow> ws_prefix (c # cs) = None"
proof -
  assume c: "is_digit c"
  have "\<not> (w \<noteq> [] \<and> take (length w) (c # cs) = w)" if "w \<in> set white_space" for w
  proof
    assume a: "w \<noteq> [] \<and> take (length w) (c # cs) = w"
    then obtain x xs where w: "w = x # xs" by (cases w) auto
    with a have "x = c" by simp
    with ws_first_not_digit [OF that] w c show False by simp
  qed
  then show ?thesis
    by (simp add: ws_prefix_def find_None_iff)
qed

lemma trimStart_digit: "is_digit c \<Longrightarrow> trimStart (c # cs) = c # cs"
  by (subst trimStart.simps) (simp add: ws_prefix_digit)

lemma trimStart_undefined: "trimStart ''undefined'' = ''undefined''"
  by (subst trimStart.simps) (simp add: ws_prefix_def white_space_def)

lemma parseInt_missing: "parseInt None = NaN"
  by (simp add: parseInt_def trimStart_undefined is_digit_def Let_def)

lemma parseInt_no_leading_integer: "no_leading_integer input \<Longrightarrow> parseInt input = NaN"
proof (cases input)
  case None
  then show ?thesis by (simp add: parseInt_missing)
next
  case (Some str)
  assume nn: "no_leading_integer input"
  show ?thesis
  proof (cases "trimStart str")
    case Nil
    with Some show ?thesis by (simp add: parseInt_def Let_def)
  next
    case (Cons c cs)
    with Some nn show ?thesis
      by (cases cs) (auto simp: parseInt_def no_leading_integer_def Let_def split: if_splits)
  qed
qed

lemma takeWhile_digits:
  assumes "list_all is_digit ds" and "rest = [] \<or> \<not> is_digit (hd rest)"
  shows "takeWhile is_digit (ds @ rest) = ds"
proof -
  from assms(2) have "takeWhile is_digit rest = []"
    by (cases rest) auto
  with assms(1) show ?thesis
    by (simp add: list_all_iff)
qed

lemma parseInt_unsigned:
  assumes "trimStart S = S" and "take 1 S \<noteq> ''+''" and "take 1 S \<noteq> ''-''"
    and "takeWhile is_digit S = Z" and "Z \<noteq> []"
  shows "parseInt (Some S) = signed False (nearest_double (digits_value Z))"
  using assms by (simp add: parseInt_def Let_def)

lemma parseInt_leading:
  assumes "numeral_string ds" and "rest = [] \<or> \<not> is_digit (hd rest)"
  shows "parseInt (Some (ds @ rest)) = signed False (nearest_double (digits_value ds))"
proof -
  from assms(1) obtain c cs where ds: "ds = c # cs" and c: "is_digit c"
    and all: "list_all is_digit ds"
    by (cases ds) (auto simp: numeral_string_def)
  from c have sign: "c \<noteq> CHR ''+''" "c \<noteq> CHR ''-''"
    by (auto simp: is_digit_def)
  show ?thesis
  proof (rule parseInt_unsigned)
    show "trimStart (ds @ rest) = ds @ rest"
      using c by (simp add: ds trimStart_digit)
    show "take 1 (ds @ rest) \<noteq> ''+''" and "take 1 (ds @ rest) \<noteq> ''-''"
      using sign by (simp_all add: ds)
    show "takeWhile is_digit (ds @ rest) = ds"
      using all assms(2) by (rule takeWhile_digits)
    show "ds \<noteq> []"
      by (simp add: ds)
  qed
qed

lemma drop_bits_small: "n < 2 ^ 53 \<Longrightarrow> drop_bits n = 0"
  by (subst drop_bits.simps) simp

lemma nearest_double_small: "n < 2 ^ 53 \<Longrightarrow> nearest_double n = Some n"
  by (simp add: nearest_double_def drop_bits_small Let_def)

lemma power_drop_bits: "0 < n \<Longrightarrow> 2 ^ drop_bits n \<le> n"
proof (induction n rule: drop_bits.induct)
  case (1 n)
  show ?case
  proof (cases "n < 2 ^ 53")
    case True
    with "1.prems" show ?thesis by (simp add: drop_bits_small)
  next
    case False
    then have pos: "0 < n div 2" by simp
    from False have "drop_bits n = Suc (drop_bits (n div 2))"
      by (subst drop_bits.simps) simp
    moreover from "1.IH" [OF False pos] have "2 * 2 ^ drop_bits (n div 2) \<le> 2 * (n div 2)"
      by simp
    ultimately show ?thesis by simp
  qed
qed

lemma nearest_double_lower:
  assumes "nearest_double n = Some m"
  shows "n \<le> 2 * m"
proof (cases "n = 0")
  case True
  then show ?thesis by simp
next
  case False
  define e where "e = drop_bits n"
  define q where "q = n div 2 ^ e"
  define r where "r = n mod 2 ^ e"
  from False have "2 ^ e \<le> n"
    unfolding e_def by (intro power_drop_bits) simp
  then have q: "1 \<le> q"
    unfolding q_def by (simp add: div_greater_zero_iff Suc_le_eq)
  have n: "n = q * 2 ^ e + r"
    unfolding q_def r_def by (rule div_mult_mod_eq [symmetric])
  have r: "r < 2 ^ e"
    unfolding r_def by simp
  from assms have "q * 2 ^ e \<le> m"
    by (auto simp: nearest_double_def Let_def e_def [symmetric] q_def [symmetric]
        r_def [symmetric] split: if_splits)
  moreover from q have "2 ^ e \<le> q * 2 ^ e" by simp
  ultimately show ?thesis using n r by linarith
qed

lemma digits_value_zeros:
  "foldl (\<lambda>a c. 10 * a + (of_char c - 48)) (a::nat) (replicate n CHR ''0'') = a * 10 ^ n"
  by (induction n arbitrary: a) simp_all

lemma parseInt_big:
  "parseInt (Some (CHR ''1'' # replicate n CHR ''0'')) = signed False (nearest_double (10 ^ n))"
proof -
  have "numeral_string (CHR ''1'' # replicate n CHR ''0'')"
    by (simp add: numeral_string_def is_digit_def list_all_iff)
  from parseInt_leading [OF this, of "[]"] show ?thesis
    by (simp add: digits_value_def digits_value_zeros)
qed

lemma less_power_ten: "n < (10::nat) ^ n"
  by (induction n) simp_all

lemma query_limit_big:
  "query_limit (big_query n) = or_default (signed False (nearest_double (10 ^ n))) 10"
  by (simp add: query_limit_def big_query_def query_def request_of_def parseInt_big)

lemma big_exceeds: "exceeds B (query_limit (big_query (Suc (nat B))))"
proof (cases "nearest_double (10 ^ Suc (nat B))")
  case None
  then have "query_limit (big_query (Suc (nat B))) = PosInf"
    by (simp only: query_limit_big) (simp add: signed_def or_default_def)
  then show ?thesis
    by (simp add: exceeds_def)
next
  case (Some m)
  from nearest_double_lower [OF Some] have "10 * 10 ^ nat B \<le> 2 * m"
    by simp
  with less_power_ten [of "nat B"] have m: "nat B < m"
    by linarith
  then have "B < int m" and "int m \<noteq> 0"
    by linarith+
  moreover from Some have "query_limit (big_query (Suc (nat B))) = or_default (Num (int m)) 10"
    by (simp only: query_limit_big) (simp add: signed_def)
  ultimately show ?thesis
    by (simp add: or_default_def exceeds_def)
qed

lemma routed_events_list:
  "r_method req = GET \<Longrightarrow> r_path req = [] \<Longrightarrow>
   routed (eventRoutes d) req =
     Some (\<lparr>rt_method = GET, rt_pattern = [], rt_chain = [], rt_handler = events_get_all\<rparr>,
           req\<lparr>r_params := []\<rparr>)"
  by (simp add: eventRoutes_def match_route_def)

lemma query_params: "query (req\<lparr>r_params := ps\<rparr>) k = query req k"
  by (simp add: query_def)

lemma events_list_asks:
  assumes "r_method req = GET" and "r_path req = []"
  shows "snd (dispatch (eventRoutes d) ctl req) =
           [event_getEvents (query_limit req) (query_offset req)]"
  using assms
  by (simp add: dispatch_events routed_events_list events_get_all_def invoke_trace
      query_limit_def query_offset_def query_params)

lemma big_query_get: "r_method (big_query n) = GET \<and> r_path (big_query n) = []"
  by (simp add: big_query_def request_of_def)

lemma query_offset_big: "query_offset (big_query n) = Num 0"
  by (simp add: query_offset_def big_query_def request_of_def query_def parseInt_missing
      or_default_def)

lemma newestFirst_sorted:
  "sorted (map (\<lambda>v. - int (v_createdAt v)) (newestFirst vs)) \<and> set (newestFirst vs) = set vs \<and>
   length (newestFirst vs) = length vs"
  by (simp add: newestFirst_def)

lemma leading_limit:
  assumes "numeral_string ds" and "rest = [] \<or> \<not> is_digit (hd rest)"
    and "query req ''limit'' = Some (ds @ rest)"
  shows "query_limit req =
           (if digits_value ds = 0 then Num 10
            else signed False (nearest_double (digits_value ds)))"
proof (cases "digits_value ds < 2 ^ 53")
  case True
  with assms show ?thesis
    by (simp add: query_limit_def parseInt_leading nearest_double_small signed_def
        or_default_def)
next
  case False
  then have big: "2 ^ 53 \<le> digits_value ds" by simp
  have "signed False (nearest_double (digits_value ds)) \<noteq> NaN"
    by (simp add: signed_def split: option.splits)
  moreover have "signed False (nearest_double (digits_value ds)) \<noteq> Num 0"
  proof (cases "nearest_double (digits_value ds)")
    case None
    then show ?thesis by (simp add: signed_def)
  next
    case (Some m)
    from nearest_double_lower [OF Some] big have "m \<noteq> 0" by auto
    with Some show ?thesis by (simp add: signed_def)
  qed
  moreover from big have "digits_value ds \<noteq> 0" by auto
  ultimately show ?thesis
    using assms by (simp add: query_limit_def parseInt_leading or_default_def)
qed

lemma leading_offset:
  assumes "numeral_string ds" and "rest = [] \<or> \<not> is_digit (hd rest)"
    and "query req ''offset'' = Some (ds @ rest)"
  shows "query_offset req = signed False (nearest_double (digits_value ds))"
proof (cases "digits_value ds = 0")
  case True
  with assms show ?thesis
    by (simp add: query_offset_def parseInt_leading nearest_double_small signed_def
        or_default_def)
next
  case False
  have "signed False (nearest_double (digits_value ds)) \<noteq> NaN"
    by (simp add: signed_def split: option.splits)
  then show ?thesis
    using assms by (simp add: query_offset_def parseInt_leading or_default_def)
qed

lemma page_of_vehicles:
  "0 \<le> l \<Longrightarrow> 0 \<le> off \<Longrightarrow>
     getVehicles (Num l) (Num off) s =
       Inr (take (nat l) (drop (nat off) (newestFirst (rows s))))"
  by (simp add: getVehicles_def page_def)

lemma other_lists_ask:
  assumes "r_method req = GET" and "r_path req = []"
  shows "snd (dispatch (commentRoutes d) ctl req) = [comment_getComments] \<and>
         snd (dispatch (imageRoutes d) ctl req) = [image_getImages]"
proof -
  from assms have "routed (commentRoutes d) req =
      Some (\<lparr>rt_method = GET, rt_pattern = [], rt_chain = [], rt_handler = comments_get_all\<rparr>,
            req\<lparr>r_params := []\<rparr>)"
    by (simp add: commentRoutes_def match_route_def)
  moreover from assms have "routed (imageRoutes d) req =
      Some (\<lparr>rt_method = GET, rt_pattern = [], rt_chain = [], rt_handler = images_get_all\<rparr>,
            req\<lparr>r_params := []\<rparr>)"
    by (simp add: imageRoutes_def match_route_def)
  ultimately show ?thesis
    by (simp add: dispatch_comments dispatch_images comments_get_all_def images_get_all_def
        invoke_trace)
qed

lemma length_by_user_fleet: "length (getVehiclesByUser 1 (fleet k t)) = k"
  by (simp add: getVehiclesByUser_def fleet_def car_def)

lemma five_abc:
  "snd (dispatch (eventRoutes sample_deps) event_controller (limit_query ''5abc'')) =
     [event_getEvents (Num 5) (Num 0)]"
proof -
  have get: "r_method (limit_query ''5abc'') = GET" "r_path (limit_query ''5abc'') = []"
    by (simp_all add: limit_query_def request_of_def)
  have "numeral_string ''5''"
    by (simp add: numeral_string_def is_digit_def)
  moreover have "''abc'' = [] \<or> \<not> is_digit (hd ''abc'')"
    by (simp add: is_digit_def)
  moreover have "query (limit_query ''5abc'') ''limit'' = Some (''5'' @ ''abc'')"
    by (simp add: limit_query_def query_def)
  ultimately have "query_limit (limit_query ''5abc'') =
      (if digits_value ''5'' = 0 then Num 10 else signed False (nearest_double (digits_value ''5'')))"
    by (rule leading_limit)
  moreover have "digits_value ''5'' = 5"
    by (simp add: digits_value_def)
  ultimately have limit: "query_limit (limit_query ''5abc'') = Num 5"
    by (simp add: nearest_double_small signed_def)
  have "no_leading_integer (query (limit_query ''5abc'') ''offset'')"
    by (simp add: limit_query_def query_def no_leading_integer_def)
  then have offset: "query_offset (limit_query ''5abc'') = Num 0"
    by (simp add: query_offset_def parseInt_no_leading_integer or_default_def)
  from events_list_asks [OF get] limit offset show ?thesis
    by simp
qed

text \<open>
  Claim C6, as stated, gives limit 10 and offset 0 whenever the query input is missing or
  not numeric, for every list call, which then returns at most ten items. The input
  \<^verbatim>\<open>5abc\<close> is no numeral, yet \<^verbatim>\<open>parseInt\<close> reads its leading digits: the list
  route of the event router asks the controller for limit 5. And a list call without
  pagination, such as the vehicles of a user, takes no limit: eleven rows are returned.
\<close>

theorem list_defaults_counterexample:
  "\<not> decimal_numeral ''5abc'' \<and>
   snd (dispatch (eventRoutes sample_deps) event_controller (limit_query ''5abc'')) =
     [event_getEvents (Num 5) (Num 0)] \<and>
   \<not> length (getVehiclesByUser 1 (fleet 11 ''suv'')) \<le> 10"
proof (intro conjI)
  show "\<not> decimal_numeral ''5abc''"
    by (simp add: decimal_numeral_def numeral_string_def is_digit_def)
  show "snd (dispatch (eventRoutes sample_deps) event_controller (limit_query ''5abc'')) =
     [event_getEvents (Num 5) (Num 0)]"
    by (rule five_abc)
  show "\<not> length (getVehiclesByUser 1 (fleet 11 ''suv'')) \<le> 10"
    by (simp add: getVehiclesByUser_def fleet_def car_def)
qed

text \<open>
  Claim C6, amended. The list route of the event router calls the controller with the
  limit and the offset it reads from the query string by
  \<^verbatim>\<open>parseInt(..., 10) || default\<close>, each on its own: an input that is missing or has
  no decimal integer at its start (after white space and one sign) gives limit 10,
  respectively offset 0; an input that starts with decimal digits gives their value,
  whatever follows them, except that a limit of zero becomes 10. The value is the double
  nearest to the integer read, the integer itself below \<open>2\<^sup>5\<^sup>3\<close>, and no bound applies:
  for every \<open>B\<close> there is a request for which the route asks for a limit above \<open>B\<close>.
  The list query of the vehicle controller with limit \<open>l\<close> and offset \<open>off\<close>, neither
  negative, returns the rows newest first, \<open>off\<close> skipped and at most \<open>l\<close> taken: with the
  defaults the first ten. The list calls without pagination take no limit: the list
  routes of comments and images call their controllers without one, and the vehicles
  of a user are returned all.
\<close>

theorem list_pagination:
  "(r_method req = GET \<and> r_path req = [] \<longrightarrow>
      snd (dispatch (eventRoutes d) ctl req) =
        [event_getEvents (query_limit req) (query_offset req)]) \<and>
   (no_leading_integer (query req ''limit'') \<longrightarrow> query_limit req = Num 10) \<and>
   (no_leading_integer (query req ''offset'') \<longrightarrow> query_offset req = Num 0) \<and>
   (numeral_string ds \<and> (rest = [] \<or> \<not> is_digit (hd rest)) \<longrightarrow>
      (query req ''limit'' = Some (ds @ rest) \<longrightarrow>
         query_limit req =
           (if digits_value ds = 0 then Num 10
            else signed False (nearest_double (digits_value ds)))) \<and>
      (query req ''offset'' = Some (ds @ rest) \<longrightarrow>
         query_offset req = signed False (nearest_double (digits_value ds)))) \<and>
   (n < 2 ^ 53 \<longrightarrow> signed False (nearest_double n) = Num (int n)) \<and>
   (snd (dispatch (eventRoutes d) ctl (big_query (Suc (nat B)))) =
      [event_getEvents (query_limit (big_query (Suc (nat B)))) (Num 0)] \<and>
    exceeds B (query_limit (big_query (Suc (nat B))))) \<and>
   (0 \<le> l \<and> 0 \<le> off \<longrightarrow>
      getVehicles (Num l) (Num off) s =
        Inr (take (nat l) (drop (nat off) (newestFirst (rows s)))) \<and>
      length (take (nat l) (drop (nat off) (newestFirst (rows s)))) \<le> nat l) \<and>
   (\<exists>vs. getVehicles (Num 10) (Num 0) s = Inr vs \<and> vs = take 10 (newestFirst (rows s)) \<and>
      length vs \<le> 10) \<and>
   (r_method req = GET \<and> r_path req = [] \<longrightarrow>
      snd (dispatch (commentRoutes d) ctl req) = [comment_getComments] \<and>
      snd (dispatch (imageRoutes d) ctl req) = [image_getImages]) \<and>
   length (getVehiclesByUser 1 (fleet k t)) = k"
proof -
  have asks: "r_method req = GET \<and> r_path req = [] \<longrightarrow>
      snd (dispatch (eventRoutes d) ctl req) =
        [event_getEvents (query_limit req) (query_offset req)]"
    by (simp add: events_list_asks)
  have limit: "no_leading_integer (query req ''limit'') \<longrightarrow> query_limit req = Num 10"
    by (simp add: query_limit_def parseInt_no_leading_integer or_default_def)
  have offset: "no_leading_integer (query req ''offset'') \<longrightarrow> query_offset req = Num 0"
    by (simp add: query_offset_def parseInt_no_leading_integer or_default_def)
  have leading: "numeral_string ds \<and> (rest = [] \<or> \<not> is_digit (hd rest)) \<longrightarrow>
      (query req ''limit'' = Some (ds @ rest) \<longrightarrow>
         query_limit req =
           (if digits_value ds = 0 then Num 10
            else signed False (nearest_double (digits_value ds)))) \<and>
      (query req ''offset'' = Some (ds @ rest) \<longrightarrow>
         query_offset req = signed False (nearest_double (digits_value ds)))"
    using leading_limit [of ds rest req] leading_offset [of ds rest req] by blast
  have exact: "n < 2 ^ 53 \<longrightarrow> signed False (nearest_double n) = Num (int n)"
    by (simp add: nearest_double_small signed_def)
  have big: "snd (dispatch (eventRoutes d) ctl (big_query (Suc (nat B)))) =
      [event_getEvents (query_limit (big_query (Suc (nat B)))) (Num 0)] \<and>
    exceeds B (query_limit (big_query (Suc (nat B))))"
    using events_list_asks [of "big_query (Suc (nat B))" d ctl] big_query_get [of "Suc (nat B)"]
      query_offset_big [of "Suc (nat B)"] big_exceeds [of B]
    by simp
  have pages: "0 \<le> l \<and> 0 \<le> off \<longrightarrow>
      getVehicles (Num l) (Num off) s =
        Inr (take (nat l) (drop (nat off) (newestFirst (rows s)))) \<and>
      length (take (nat l) (drop (nat off) (newestFirst (rows s)))) \<le> nat l"
    by (simp add: page_of_vehicles)
  have ten: "\<exists>vs. getVehicles (Num 10) (Num 0) s = Inr vs \<and>
      vs = take 10 (newestFirst (rows s)) \<and> length vs \<le> 10"
    by (simp add: getVehicles_def page_def)
  have others: "r_method req = GET \<and> r_path req = [] \<longrightarrow>
      snd (dispatch (commentRoutes d) ctl req) = [comment_getComments] \<and>
      snd (dispatch (imageRoutes d) ctl req) = [image_getImages]"
    using other_lists_ask [of req d ctl] by blast
  show ?thesis
    by (rule conjI, rule asks, rule conjI, rule limit, rule conjI, rule offset,
        rule conjI, rule leading, rule conjI, rule exact, rule conjI, rule big,
        rule conjI, rule pages, rule conjI, rule ten, rule conjI, rule others,
        rule length_by_user_fleet)
qed

theorem list_pagination_witness:
  "snd (dispatch (eventRoutes sample_deps) event_controller (limit_query ''abc'')) =
     [event_getEvents (Num 10) (Num 0)] \<and>
   query_limit (limit_query ''25'') = Num 25 \<and>
   getVehicles (Num 1) (Num 1) garage = Inr [car 1 1 ''suv'' 10]"
proof -
  note abc = list_pagination [where req = "limit_query ''abc''" and d = sample_deps
      and ctl = event_controller and l = 1 and off = 1 and s = garage]
  note num = list_pagination [where req = "limit_query ''25''" and ds = "''25''"
      and rest = "[]" and n = 25]
  have get: "r_method (limit_query ''abc'') = GET \<and> r_path (limit_query ''abc'') = []"
    by (simp add: limit_query_def request_of_def)
  have "no_leading_integer (query (limit_query ''abc'') ''limit'')"
    by (simp add: limit_query_def query_def no_leading_integer_def trimStart.simps
        ws_prefix_def white_space_def is_digit_def)
  with abc have limit: "query_limit (limit_query ''abc'') = Num 10"
    by blast
  have "no_leading_integer (query (limit_query ''abc'') ''offset'')"
    by (simp add: limit_query_def query_def no_leading_integer_def)
  with abc have offset: "query_offset (limit_query ''abc'') = Num 0"
    by blast
  from abc get have "snd (dispatch (eventRoutes sample_deps) event_controller (limit_query ''abc'')) =
     [event_getEvents (query_limit (limit_query ''abc'')) (query_offset (limit_query ''abc''))]"
    by blast
  with limit offset have first: "snd (dispatch (eventRoutes sample_deps) event_controller
      (limit_query ''abc'')) = [event_getEvents (Num 10) (Num 0)]"
    by simp
  have val25: "digits_value ''25'' = 25"
    by (simp add: digits_value_def)
  have "numeral_string ''25'' \<and> ([] = [] \<or> \<not> is_digit (hd []))"
    by (simp add: numeral_string_def is_digit_def)
  moreover have "query (limit_query ''25'') ''limit'' = Some (''25'' @ [])"
    by (simp add: limit_query_def query_def)
  ultimately have "query_limit (limit_query ''25'') =
      (if digits_value ''25'' = 0 then Num 10
       else signed False (nearest_double (digits_value ''25'')))"
    using num by blast
  moreover have "signed False (nearest_double 25) = Num (int 25)"
    using num by simp
  ultimately have second: "query_limit (limit_query ''25'') = Num 25"
    by (simp add: val25)
  from abc have "getVehicles (Num 1) (Num 1) garage =
      Inr (take (nat 1) (drop (nat 1) (newestFirst (rows garage))))"
    by simp
  then have third: "getVehicles (Num 1) (Num 1) garage = Inr [car 1 1 ''suv'' 10]"
    by (simp add: newestFirst_def garage_def car_def)
  from first second third show ?thesis
    by simp
qed

section \<open>The Event with its related entities\<close>





















text \<open>
  The route looks at the \<^verbatim>\<open>User\<close> of the Event only: for an eager load two levels
  deep, where a Comment carries its own \<^verbatim>\<open>User\<close>, the fields of that user would stay.
\<close>

lemma strip_user_is_shallow:
  "user_secret (strip_user journal_nested)"
  by (simp add: strip_user_def journal_nested_def owner_def commenter_def delete_key_def
      has_key_def)

section \<open>The owner of an Event\<close>

text \<open>
  Claim C3. An Event row has its own \<^verbatim>\<open>userId\<close>, recorded at creation from the
  payload (which must be the caller's id). Whether an update or a delete of an existing
  Event is refused with 401 depends on that field alone: it is refused exactly when the
  caller is not the Event's \<^verbatim>\<open>userId\<close>, whatever the table of vehicles holds, so the
  owner of the Event's Vehicle gains no right over the Event.
\<close>

theorem event_owner_field:
  "(createEvent data caller s = (Inr (Payload row), s') \<longrightarrow>
      e_userId row = caller \<and> ed_userId data = Some (e_userId row) \<and>
      events s' = events s @ [row]) \<and>
   (Event_findOne i s = Some e \<longrightarrow>
      (fst (updateEvent i upd caller (s\<lparr>vehicles := vs\<rparr>)) = Inr (Sentinel 401))
        = (e_userId e \<noteq> caller) \<and>
      (fst (deleteEvent i caller (s\<lparr>vehicles := vs\<rparr>)) = Inr (Sentinel 401))
        = (e_userId e \<noteq> caller))"
proof -
  have created: "e_userId row = caller \<and> ed_userId data = Some (e_userId row) \<and>
      events s' = events s @ [row]"
    if "createEvent data caller s = (Inr (Payload row), s')"
    using that by (auto simp: createEvent_def Let_def split: if_splits option.splits)
  have guarded: "(fst (updateEvent i upd caller (s\<lparr>vehicles := vs\<rparr>)) = Inr (Sentinel 401))
        = (e_userId e \<noteq> caller) \<and>
      (fst (deleteEvent i caller (s\<lparr>vehicles := vs\<rparr>)) = Inr (Sentinel 401))
        = (e_userId e \<noteq> caller)"
    if "Event_findOne i s = Some e"
  proof -
    from that have found: "Event_findOne i (s\<lparr>vehicles := vs\<rparr>) = Some e"
      by (simp add: Event_findOne_def)
    show ?thesis
      by (simp add: updateEvent_def deleteEvent_def found)
  qed
  from created guarded show ?thesis
    by blast
qed

lemma create_event_eval:
  "createEvent (new_event 2 1) 2 yard =
     (Inr (Payload \<lparr>e_id = 8, e_userId = 2, e_vehicleid = 1, e_title = ''Exhaust Upgrade'',
                    e_detail = None, e_type = modification, e_date = ''2023-06-12'',
                    e_published = False\<rparr>),
      yard\<lparr>events := events yard @
               [\<lparr>e_id = 8, e_userId = 2, e_vehicleid = 1, e_title = ''Exhaust Upgrade'',
                    e_detail = None, e_type = modification, e_date = ''2023-06-12'',
                    e_published = False\<rparr>], nextEventId := 9\<rparr>)"
  by (simp add: createEvent_def new_event_def yard_def vehicle_exists_def car_def Let_def)

theorem event_owner_field_witness:
  "v_userId (car 1 1 ''suv'' 10) = 1 \<and> e_vehicleid story7 = v_id (car 1 1 ''suv'' 10) \<and>
   fst (updateEvent 7 retitle 1 yard) = Inr (Sentinel 401) \<and>
   fst (deleteEvent 7 1 yard) = Inr (Sentinel 401) \<and>
   fst (updateEvent 7 retitle 2 yard) \<noteq> Inr (Sentinel 401) \<and>
   fst (deleteEvent 7 2 yard) \<noteq> Inr (Sentinel 401) \<and>
   ed_userId (new_event 2 1) = Some 2"
  using event_owner_field [of "new_event 2 1" 2 yard _ _ 7 story7 retitle "vehicles yard"]
    event_owner_field [of "new_event 2 1" 1 yard _ _ 7 story7 retitle "vehicles yard"]
    create_event_eval
  by (simp add: Event_findOne_def yard_def story7_def car_def)

end
